theory Spec2Isabelle
  imports Main
begin

section \<open>Python values the notebook relies on\<close>

text \<open>
  The notebook \<^verbatim>\<open>fundamental_data_edgar_xbrl.ipynb\<close> formats integers into file names
  with f-strings, builds integer ranges with \<^verbatim>\<open>range\<close> and prints to standard output.
  Python integers are unbounded, so they are \<^typ>\<open>int\<close>; \<^verbatim>\<open>str(i)\<close> is written out
  digit by digit.
\<close>

definition digit_char :: "nat \<Rightarrow> char" where
  "digit_char d = ''0123456789'' ! d"

fun digits :: "nat \<Rightarrow> string" where
  "digits n = (if n < 10 then [digit_char n] else digits (n div 10) @ [digit_char (n mod 10)])"

declare digits.simps [simp del]

definition str_int :: "int \<Rightarrow> string" where
  "str_int i = (if i < 0 then CHR ''-'' # digits (nat (- i)) else digits (nat i))"

text \<open>\<^verbatim>\<open>range(a, b)\<close>: the integers from \<open>a\<close> up to, not including, \<open>b\<close>.\<close>

definition range_py :: "int \<Rightarrow> int \<Rightarrow> int list" where
  "range_py a b = [a..b - 1]"

definition newline :: string where
  "newline = [CHR 0x0A]"

section \<open>The period enumerator\<close>

text \<open>
  \<^verbatim>\<open>
  today = pd.Timestamp(date.today())
  this_year = today.year
  this_quarter = today.quarter
  past_years = range(2014, this_year)
  filing_periods = [(y, q) for y in past_years for q in range(1, 5)]
  filing_periods.extend([(this_year, q) for q in range(1, this_quarter + 1)])
  \<close>
  A timestamp is the calendar date; its quarter is \<open>(month - 1) // 3 + 1\<close>. The cell
  fixes the first year at 2014: \<open>filing_periods_from\<close> takes it as a parameter and
  \<open>filing_periods\<close> is the cell itself.
\<close>

record timestamp =
  year :: int
  month :: int
  day :: int

definition quarter :: "timestamp \<Rightarrow> int" where
  "quarter today = (month today - 1) div 3 + 1"

definition filing_periods_from :: "int \<Rightarrow> timestamp \<Rightarrow> (int \<times> int) list" where
  "filing_periods_from start today =
     (let this_year = year today;
          this_quarter = quarter today;
          past_years = range_py start this_year
      in [(y, q). y \<leftarrow> past_years, q \<leftarrow> range_py 1 5]
         @ [(this_year, q). q \<leftarrow> range_py 1 (this_quarter + 1)])"

definition filing_periods :: "timestamp \<Rightarrow> (int \<times> int) list" where
  "filing_periods today = filing_periods_from 2014 today"

text \<open>The order the claims speak of: (year, quarter) pairs compared lexicographically.\<close>

fun period_less :: "int \<times> int \<Rightarrow> int \<times> int \<Rightarrow> bool" where
  "period_less (y, q) (y', q') = (y < y' \<or> (y = y' \<and> q < q'))"

section \<open>The local file system and the remote archive\<close>

text \<open>
  A path on the disk is the list of its components from the root, the empty list being
  the root. The disk is a map from such paths to nodes. The process runs in a working
  directory \<open>cwd\<close>: it and every directory above it, up to the root, are directories.
  The disk is a POSIX one without symbolic links, the process may read and create what
  it asks for, and nothing else changes the disk during a run.
\<close>

datatype node = Dir | File string

type_synonym path = "string list"

type_synonym filesystem = "path \<rightharpoonup> node"

text \<open>
  The exceptions of the fetcher. \<^verbatim>\<open>BadZipFile\<close> carries its message, which the fetcher
  prints; \<^verbatim>\<open>RuntimeError\<close> and \<^verbatim>\<open>NotImplementedError\<close> are what reading an
  encrypted entry or one of an unknown compression raises.
\<close>

datatype exn =
    RequestException
  | FileExistsError
  | FileNotFoundError
  | NotADirectoryError
  | IsADirectoryError
  | KeyError
  | BadZipFile string
  | RuntimeError
  | NotImplementedError

definition node_at :: "path \<Rightarrow> filesystem \<Rightarrow> path \<Rightarrow> node option" where
  "node_at cwd fs p = (if take (length p) cwd = p then Some Dir else fs p)"

text \<open>
  What Python holds is a \<^verbatim>\<open>pathlib.Path\<close>: relative to the working directory or
  absolute, with a list of components among which \<open>..\<close> may occur. \<^verbatim>\<open>path / name\<close>
  splits the name at its slashes and drops the empty and the \<open>.\<close> components; a name
  that begins with a slash is absolute and replaces the path.
\<close>

datatype pypath = Relative "string list" | Absolute "string list"

fun components :: "pypath \<Rightarrow> string list" where
  "components (Relative cs) = cs"
| "components (Absolute cs) = cs"

fun anchor :: "path \<Rightarrow> pypath \<Rightarrow> path" where
  "anchor cwd (Relative cs) = cwd"
| "anchor cwd (Absolute cs) = []"

fun split_at :: "char \<Rightarrow> string \<Rightarrow> string list" where
  "split_at c [] = [[]]"
| "split_at c (x # xs) =
     (if x = c then [] # split_at c xs
      else (case split_at c xs of
              [] \<Rightarrow> [[x]]
            | r # rs \<Rightarrow> (x # r) # rs))"

definition parts :: "string \<Rightarrow> string list" where
  "parts s = filter (\<lambda>c. c \<noteq> [] \<and> c \<noteq> ''.'') (split_at (CHR ''/'') s)"

definition path_join :: "pypath \<Rightarrow> string \<Rightarrow> pypath" where
  "path_join p s =
     (if take 1 s = ''/'' then Absolute (parts s)
      else case p of
             Relative cs \<Rightarrow> Relative (cs @ parts s)
           | Absolute cs \<Rightarrow> Absolute (cs @ parts s))"

text \<open>
  The operating system resolves a path when it is used, one component after the
  other, from the working directory or from the root: the place reached so far must be
  a directory, \<open>..\<close> leads to the directory above it (the root is above itself), a
  name leads to the entry of that name. The result is where the last component leads;
  whether anything is there is the caller's question.
\<close>

fun resolve :: "path \<Rightarrow> filesystem \<Rightarrow> path \<Rightarrow> string list \<Rightarrow> exn + path" where
  "resolve cwd fs cur [] = Inr cur"
| "resolve cwd fs cur (c # cs) =
     (case node_at cwd fs cur of
        None \<Rightarrow> Inl FileNotFoundError
      | Some (File _) \<Rightarrow> Inl NotADirectoryError
      | Some Dir \<Rightarrow> resolve cwd fs (if c = ''..'' then butlast cur else cur @ [c]) cs)"

definition locate :: "path \<Rightarrow> filesystem \<Rightarrow> pypath \<Rightarrow> exn + path" where
  "locate cwd fs p = resolve cwd fs (anchor cwd p) (components p)"

text \<open>\<^verbatim>\<open>Path.exists()\<close>: false also when the path cannot be resolved.\<close>

definition path_exists :: "path \<Rightarrow> filesystem \<Rightarrow> pypath \<Rightarrow> bool" where
  "path_exists cwd fs p =
     (case locate cwd fs p of
        Inl e \<Rightarrow> False
      | Inr q \<Rightarrow> node_at cwd fs q \<noteq> None)"

definition is_dir :: "path \<Rightarrow> filesystem \<Rightarrow> pypath \<Rightarrow> bool" where
  "is_dir cwd fs p =
     (case locate cwd fs p of
        Inl e \<Rightarrow> False
      | Inr q \<Rightarrow> node_at cwd fs q = Some Dir)"

text \<open>
  \<^verbatim>\<open>Path.mkdir(exist_ok=True, parents=True)\<close> on a path without \<open>..\<close>, which is all
  the fetcher calls it on: every missing directory on the way to the path is created,
  the shortest first; an existing directory is left alone; a regular file on the way
  raises. The disk reached so far is returned with the exception.
\<close>

fun mkdirs :: "path \<Rightarrow> filesystem \<Rightarrow> path list \<Rightarrow> filesystem \<times> exn option" where
  "mkdirs cwd fs [] = (fs, None)"
| "mkdirs cwd fs (p # ps) =
     (case node_at cwd fs p of
        None \<Rightarrow> mkdirs cwd (fs(p \<mapsto> Dir)) ps
      | Some Dir \<Rightarrow> mkdirs cwd fs ps
      | Some (File _) \<Rightarrow> (fs, Some (if ps = [] then FileExistsError else NotADirectoryError)))"

definition prefixes_of :: "string list \<Rightarrow> string list list" where
  "prefixes_of p = map (\<lambda>n. take n p) [1..<Suc (length p)]"

text \<open>The path and the directories above it, down from the working directory or the root.\<close>

definition ancestors :: "path \<Rightarrow> pypath \<Rightarrow> path list" where
  "ancestors cwd p = map (\<lambda>q. anchor cwd p @ q) (prefixes_of (components p))"

definition mkdir_parents :: "path \<Rightarrow> filesystem \<Rightarrow> pypath \<Rightarrow> filesystem \<times> exn option" where
  "mkdir_parents cwd fs p = mkdirs cwd fs (ancestors cwd p)"

text \<open>
  \<^verbatim>\<open>local_file.open('wb')\<close> creates or truncates the file the path leads to, which
  must not be a directory. The result is the file opened, as the place it has on the
  disk, and the disk with the file empty.
\<close>

definition open_wb :: "path \<Rightarrow> filesystem \<Rightarrow> pypath \<Rightarrow> exn + path \<times> filesystem" where
  "open_wb cwd fs p =
     (case locate cwd fs p of
        Inl e \<Rightarrow> Inl e
      | Inr q \<Rightarrow>
          (case node_at cwd fs q of
             Some Dir \<Rightarrow> Inl IsADirectoryError
           | _ \<Rightarrow> Inr (q, fs(q \<mapsto> File []))))"

text \<open>
  \<^verbatim>\<open>for line in lines: output.write(line)\<close>: the lines of an entry, written one
  after the other to the file opened, are the entry's bytes.
\<close>

definition write_all :: "filesystem \<Rightarrow> path \<Rightarrow> string \<Rightarrow> filesystem" where
  "write_all fs q content = fs(q \<mapsto> File content)"

text \<open>
  The network and the archive decoder are outside the notebook. \<^verbatim>\<open>requests.get(url)\<close>
  either raises or returns a body. \<^verbatim>\<open>ZipFile(BytesIO(body))\<close> either raises
  \<^verbatim>\<open>BadZipFile\<close> with a message, the body being no archive, or gives the archive's
  entries in the archive's order. An entry has a name, and
  \<^verbatim>\<open>zip_file.open(name).readlines()\<close> either gives its bytes or raises:
  \<^verbatim>\<open>BadZipFile\<close> when the entry's header or checksum is wrong, another exception
  when the entry cannot be decoded. An archive may hold a name twice:
  \<^verbatim>\<open>namelist()\<close> lists both and \<^verbatim>\<open>open(name)\<close> reads the later one.
\<close>

datatype entry = Bytes string | Unreadable exn

type_synonym zip_file = "(string \<times> entry) list"

datatype archive = NotZip string | ZipFile zip_file

datatype response = Raises | Content archive

type_synonym network = "string \<Rightarrow> response"

definition namelist :: "zip_file \<Rightarrow> string list" where
  "namelist zf = map fst zf"

definition zip_open :: "zip_file \<Rightarrow> string \<Rightarrow> entry option" where
  "zip_open zf name = map_of (rev zf) name"

section \<open>The archive fetcher\<close>

text \<open>
  \<^verbatim>\<open>
  data_path = Path('data')
  SEC_URL = 'https://www.sec.gov/'
  FSN_PATH = 'files/dera/data/financial-statement-and-notes-data-sets/'
  \<close>
\<close>

definition data_path :: pypath where
  "data_path = Relative [''data'']"

definition SEC_URL :: string where
  "SEC_URL = ''https://www.sec.gov/''"

definition FSN_PATH :: string where
  "FSN_PATH = ''files/dera/data/financial-statement-and-notes-data-sets/''"

text \<open>\<^verbatim>\<open>filing = f'{yr}q{qtr}_notes.zip'\<close>\<close>

definition filing_name :: "int \<Rightarrow> int \<Rightarrow> string" where
  "filing_name yr qtr = str_int yr @ ''q'' @ str_int qtr @ ''_notes.zip''"

text \<open>\<^verbatim>\<open>path = data_path / f'{yr}_{qtr}' / 'source'\<close>\<close>

definition quarter_dir :: "int \<Rightarrow> int \<Rightarrow> pypath" where
  "quarter_dir yr qtr = path_join (path_join data_path (str_int yr @ ''_'' @ str_int qtr)) ''source''"

text \<open>\<^verbatim>\<open>url = SEC_URL + FSN_PATH + filing\<close>\<close>

definition filing_url :: "int \<Rightarrow> int \<Rightarrow> string" where
  "filing_url yr qtr = SEC_URL @ FSN_PATH @ filing_name yr qtr"

text \<open>
  The state a run changes: the disk, the text printed so far, and the addresses
  \<^verbatim>\<open>requests.get\<close> was called with so far.
\<close>

record world =
  disk :: filesystem
  out :: string
  requested :: "string list"

definition py_print :: "string \<Rightarrow> string \<Rightarrow> world \<Rightarrow> world" where
  "py_print s ending w = w\<lparr>out := out w @ s @ ending\<rparr>"

text \<open>
  \<^verbatim>\<open>
  for file in zip_file.namelist():
      local_file = path / file
      if local_file.exists():
          continue
      with local_file.open('wb') as output:
          for line in zip_file.open(file).readlines():
              output.write(line)
  \<close>
  The local file is opened, and so created, before the entry is read: an entry that
  cannot be read leaves its file empty.
\<close>

fun extract_entries ::
  "path \<Rightarrow> filesystem \<Rightarrow> pypath \<Rightarrow> zip_file \<Rightarrow> string list \<Rightarrow> filesystem \<times> exn option" where
  "extract_entries cwd fs path zf [] = (fs, None)"
| "extract_entries cwd fs path zf (file # rest) =
     (let local_file = path_join path file in
      if path_exists cwd fs local_file then extract_entries cwd fs path zf rest
      else (case open_wb cwd fs local_file of
              Inl e \<Rightarrow> (fs, Some e)
            | Inr (output, fs1) \<Rightarrow>
                (case zip_open zf file of
                   None \<Rightarrow> (fs1, Some KeyError)
                 | Some (Unreadable e) \<Rightarrow> (fs1, Some e)
                 | Some (Bytes content) \<Rightarrow>
                     extract_entries cwd (write_all fs1 output content) path zf rest)))"

text \<open>
  \<^verbatim>\<open>
  with ZipFile(BytesIO(response)) as zip_file:
      for file in zip_file.namelist():
          ...
  \<close>
\<close>

definition unzip_to :: "path \<Rightarrow> filesystem \<Rightarrow> pypath \<Rightarrow> archive \<Rightarrow> filesystem \<times> exn option" where
  "unzip_to cwd fs path body =
     (case body of
        NotZip e \<Rightarrow> (fs, Some (BadZipFile e))
      | ZipFile zip_file \<Rightarrow> extract_entries cwd fs path zip_file (namelist zip_file))"

text \<open>
  \<^verbatim>\<open>
  try:
      ...
  except BadZipFile as e:
      print(e)
      print('got bad zip file')
      continue
  \<close>
  Only \<^verbatim>\<open>BadZipFile\<close> is caught, wherever in the block it was raised.
\<close>

fun except_BadZipFile :: "world \<Rightarrow> exn option \<Rightarrow> world \<times> exn option" where
  "except_BadZipFile w (Some (BadZipFile e)) =
     (py_print ''got bad zip file'' newline (py_print e newline w), None)"
| "except_BadZipFile w r = (w, r)"

text \<open>
  \<^verbatim>\<open>
  if not path.exists():
      path.mkdir(exist_ok=True, parents=True)
  \<close>
\<close>

definition ensure_dir :: "path \<Rightarrow> filesystem \<Rightarrow> pypath \<Rightarrow> filesystem \<times> exn option" where
  "ensure_dir cwd fs path =
     (if \<not> path_exists cwd fs path then mkdir_parents cwd fs path else (fs, None))"

text \<open>
  One turn of the loop of \<^verbatim>\<open>fetch_filing_data\<close>, for the period \<open>(yr, qtr)\<close>:
  \<^verbatim>\<open>
  print(f'{yr}-Q{qtr}', end=' ', flush=True)
  filing = f'{yr}q{qtr}_notes.zip'
  path = data_path / f'{yr}_{qtr}' / 'source'
  if not path.exists():
      path.mkdir(exist_ok=True, parents=True)
  url = SEC_URL + FSN_PATH + filing
  print('url = ' + url)
  response = requests.get(url).content
  try:
      with ZipFile(BytesIO(response)) as zip_file:
          ...
  except BadZipFile as e:
      ...
  \<close>
  The result is the world afterwards and the exception that left the loop, if any.
\<close>

definition fetch_period :: "path \<Rightarrow> network \<Rightarrow> world \<Rightarrow> int \<times> int \<Rightarrow> world \<times> exn option" where
  "fetch_period cwd net w period =
     (case period of (yr, qtr) \<Rightarrow>
        let w1 = py_print (str_int yr @ ''-Q'' @ str_int qtr) '' '' w;
            filing = filing_name yr qtr;
            path = quarter_dir yr qtr
        in case ensure_dir cwd (disk w1) path of
             (fs1, Some e) \<Rightarrow> (w1\<lparr>disk := fs1\<rparr>, Some e)
           | (fs1, None) \<Rightarrow>
               let url = SEC_URL @ FSN_PATH @ filing;
                   w2 = py_print (''url = '' @ url) newline (w1\<lparr>disk := fs1\<rparr>);
                   w3 = w2\<lparr>requested := requested w2 @ [url]\<rparr>
               in case net url of
                    Raises \<Rightarrow> (w3, Some RequestException)
                  | Content response \<Rightarrow>
                      (case unzip_to cwd (disk w3) path response of
                         (fs2, r) \<Rightarrow> except_BadZipFile (w3\<lparr>disk := fs2\<rparr>) r))"

text \<open>\<^verbatim>\<open>def fetch_filing_data(filing_periods): for i, (yr, qtr) in enumerate(filing_periods, 1): ...\<close>\<close>

fun fetch_filing_data :: "path \<Rightarrow> network \<Rightarrow> world \<Rightarrow> (int \<times> int) list \<Rightarrow> world \<times> exn option" where
  "fetch_filing_data cwd net w [] = (w, None)"
| "fetch_filing_data cwd net w (period # rest) =
     (case fetch_period cwd net w period of
        (w', Some e) \<Rightarrow> (w', Some e)
      | (w', None) \<Rightarrow> fetch_filing_data cwd net w' rest)"

text \<open>
  Two notions the statements about the fetcher use. \<open>no_file_on cwd fs p\<close>: no regular
  file sits at \<open>p\<close> or at a directory above it, so that \<open>p\<close> can be made a directory.
  \<open>readable zf\<close>: every entry the archive lists can be read.
\<close>

definition no_file_on :: "path \<Rightarrow> filesystem \<Rightarrow> pypath \<Rightarrow> bool" where
  "no_file_on cwd fs p =
     list_all (\<lambda>q. case node_at cwd fs q of Some (File _) \<Rightarrow> False | _ \<Rightarrow> True) (ancestors cwd p)"


section \<open>The bucket uploader\<close>

text \<open>
  \<^verbatim>\<open>os.walk(top)\<close> yields, top down, one triple (directory path, names of its
  subdirectories, names of its files) for every directory of the tree under \<open>top\<close>, and
  nothing when \<open>top\<close> is not a directory. The uploader sees the disk as
  \<^verbatim>\<open>os.walk\<close> does: a directory is its file names and its named subdirectories.
\<close>

datatype tree = Tree "string list" "(string \<times> tree) list"

fun walk :: "string \<Rightarrow> tree \<Rightarrow> (string \<times> string list \<times> string list) list" where
  "walk dirpath (Tree filenames dirs) =
     (dirpath, map fst dirs, filenames)
     # concat (map (\<lambda>(name, t). walk (dirpath @ ''/'' @ name) t) dirs)"

type_synonym directories = "string \<Rightarrow> tree option"

definition os_walk :: "directories \<Rightarrow> string \<Rightarrow> (string \<times> string list \<times> string list) list" where
  "os_walk cwd dirpath = (case cwd dirpath of None \<Rightarrow> [] | Some t \<Rightarrow> walk dirpath t)"

text \<open>
  What a run of the uploader does, in order: text printed, calls of
  \<^verbatim>\<open>s3_client.upload_file(file_name, bucket, key)\<close> made by the calling thread, and
  tasks \<^verbatim>\<open>upload_file_to_s3(file_path, bucket, key, s3_client)\<close> handed to the
  executor. The client is outside the notebook: it says for each call whether
  \<^verbatim>\<open>upload_file\<close> returns (\<open>True\<close>) or raises.
\<close>

datatype event =
    Stdout string
  | S3_upload string string string
  | Pool_submit string string string

type_synonym s3_client = "string \<Rightarrow> string \<Rightarrow> string \<Rightarrow> bool"

text \<open>
  \<^verbatim>\<open>
  def upload_file_to_s3(file_name, bucket, key, s3_client):
      try:
          s3_client.upload_file(file_name, bucket, key)
      except:
          print("Error when uploading file: " + file_name)
  \<close>
\<close>

definition upload_file_to_s3 :: "string \<Rightarrow> string \<Rightarrow> string \<Rightarrow> s3_client \<Rightarrow> event list" where
  "upload_file_to_s3 file_name bucket key s3_client =
     S3_upload file_name bucket key
     # (if s3_client file_name bucket key then []
        else [Stdout (''Error when uploading file: '' @ file_name @ newline)])"

text \<open>
  \<^verbatim>\<open>
  def upload_folder_to_s3(folder, bucket, s3_client):
      for root, dirs, files in os.walk("./data"):
          for file in files:
              file_path = root + "/" + file
              upload_file_to_s3(file_path, bucket, file_path[2:], s3_client)
              print("uploading file: ", file_path)
  \<close>
\<close>

definition upload_folder_to_s3 :: "directories \<Rightarrow> string \<Rightarrow> string \<Rightarrow> s3_client \<Rightarrow> event list" where
  "upload_folder_to_s3 cwd folder bucket s3_client =
     concat (map (\<lambda>(root, dirs, files).
       concat (map (\<lambda>file.
         let file_path = root @ ''/'' @ file in
         upload_file_to_s3 file_path bucket (drop 2 file_path) s3_client
         @ [Stdout (''uploading file: '' @ '' '' @ file_path @ newline)]) files))
       (os_walk cwd ''./data''))"

text \<open>
  \<^verbatim>\<open>
  def parallel_upload_folder_to_s3(folder, bucket, s3_client):
      with ThreadPoolExecutor(max_workers=10) as executor:
          for root, dirs, files in os.walk("./data"):
              for file in files:
                  file_path = root + "/" + file
                  print("uploading file: ", file_path)
                  upload_file_to_s3(file_path, bucket, file_path[2:], s3_client)
                  future = executor.submit(upload_file_to_s3, file_path, bucket, file_path[2:], s3_client)
  \<close>
  The model is the calling thread's trace; what the pool's threads do with a task is
  not in it.
\<close>

definition parallel_upload_folder_to_s3 :: "directories \<Rightarrow> string \<Rightarrow> string \<Rightarrow> s3_client \<Rightarrow> event list" where
  "parallel_upload_folder_to_s3 cwd folder bucket s3_client =
     concat (map (\<lambda>(root, dirs, files).
       concat (map (\<lambda>file.
         let file_path = root @ ''/'' @ file in
         [Stdout (''uploading file: '' @ '' '' @ file_path @ newline)]
         @ upload_file_to_s3 file_path bucket (drop 2 file_path) s3_client
         @ [Pool_submit file_path bucket (drop 2 file_path)]) files))
       (os_walk cwd ''./data''))"

text \<open>The paths of the files a walk of \<^verbatim>\<open>./data\<close> finds, in the walk's order.\<close>

definition walked_files :: "directories \<Rightarrow> string list" where
  "walked_files cwd = [root @ ''/'' @ file. (root, dirs, files) \<leftarrow> os_walk cwd ''./data'', file \<leftarrow> files]"

text \<open>The calls and submissions of a trace, without the printed text.\<close>

fun is_call :: "event \<Rightarrow> bool" where
  "is_call (Stdout _) = False"
| "is_call (S3_upload _ _ _) = True"
| "is_call (Pool_submit _ _ _) = True"

definition calls :: "event list \<Rightarrow> event list" where
  "calls es = filter is_call es"

section \<open>Properties of the period enumerator\<close>

lemma sorted_wrt_concat_map:
  "sorted_wrt R (concat (map f xs)) \<longleftrightarrow>
     (\<forall>x\<in>set xs. sorted_wrt R (f x)) \<and>
     sorted_wrt (\<lambda>x y. \<forall>a\<in>set (f x). \<forall>b\<in>set (f y). R a b) xs"
  by (induction xs) (auto simp: sorted_wrt_append)

lemma sorted_wrt_less_upto: "sorted_wrt (<) [a..b::int]"
  using sorted_wrt_upto by blast

lemma period_less_irrefl: "\<not> period_less p p"
  by (cases p) simp

lemma sorted_wrt_period_less_distinct: "sorted_wrt period_less ps \<Longrightarrow> distinct ps"
  by (induction ps) (auto simp: period_less_irrefl)

lemma filing_periods_from_sorted: "sorted_wrt period_less (filing_periods_from Y D)"
  unfolding filing_periods_from_def Let_def range_py_def
  apply (simp add: sorted_wrt_append sorted_wrt_concat_map sorted_wrt_map)
  apply (auto intro!: sorted_wrt_mono_rel[OF _ sorted_wrt_less_upto])
  done

lemma filing_periods_from_set:
  "(y, q) \<in> set (filing_periods_from Y D) \<longleftrightarrow>
     (Y \<le> y \<and> y < year D \<and> 1 \<le> q \<and> q \<le> 4) \<or> (y = year D \<and> 1 \<le> q \<and> q \<le> quarter D)"
  unfolding filing_periods_from_def Let_def range_py_def
  by (auto simp: image_iff)

lemma filing_periods_2021_02_01:
  "filing_periods \<lparr>year = 2021, month = 2, day = 1\<rparr> =
     [(2014, 1), (2014, 2), (2014, 3), (2014, 4), (2015, 1), (2015, 2), (2015, 3), (2015, 4),
      (2016, 1), (2016, 2), (2016, 3), (2016, 4), (2017, 1), (2017, 2), (2017, 3), (2017, 4),
      (2018, 1), (2018, 2), (2018, 3), (2018, 4), (2019, 1), (2019, 2), (2019, 3), (2019, 4),
      (2020, 1), (2020, 2), (2020, 3), (2020, 4), (2021, 1)]"
  by code_simp

text \<open>
  C3. For every start year \<open>Y\<close> and every date \<open>D\<close> of a later year, the enumerated
  periods are strictly increasing in the lexicographic order of (year, quarter), hence
  free of duplicates; a pair is enumerated exactly when it is one of the four quarters
  of a year from \<open>Y\<close> to the year before \<open>D\<close>'s, or one of the quarters 1 to
  \<open>quarter D\<close> of \<open>D\<close>'s year; and on 2021-02-01 the notebook's cell, which starts at
  2014, gives the 29 periods from (2014, 1) to (2021, 1).
\<close>

theorem filing_periods_enumeration:
  assumes "Y < year D"
  shows "sorted_wrt period_less (filing_periods_from Y D)
       \<and> distinct (filing_periods_from Y D)
       \<and> (\<forall>y q. (y, q) \<in> set (filing_periods_from Y D) \<longleftrightarrow>
             (Y \<le> y \<and> y < year D \<and> 1 \<le> q \<and> q \<le> 4)
           \<or> (y = year D \<and> 1 \<le> q \<and> q \<le> quarter D))
       \<and> filing_periods \<lparr>year = 2021, month = 2, day = 1\<rparr> =
           [(2014, 1), (2014, 2), (2014, 3), (2014, 4), (2015, 1), (2015, 2), (2015, 3), (2015, 4),
            (2016, 1), (2016, 2), (2016, 3), (2016, 4), (2017, 1), (2017, 2), (2017, 3), (2017, 4),
            (2018, 1), (2018, 2), (2018, 3), (2018, 4), (2019, 1), (2019, 2), (2019, 3), (2019, 4),
            (2020, 1), (2020, 2), (2020, 3), (2020, 4), (2021, 1)]
       \<and> length (filing_periods \<lparr>year = 2021, month = 2, day = 1\<rparr>) = 29"
proof -
  have s: "sorted_wrt period_less (filing_periods_from Y D)"
    by (rule filing_periods_from_sorted)
  have d: "distinct (filing_periods_from Y D)"
    using s by (rule sorted_wrt_period_less_distinct)
  have l: "length (filing_periods \<lparr>year = 2021, month = 2, day = 1\<rparr>) = 29"
    by (simp add: filing_periods_2021_02_01)
  show ?thesis
    using s d l filing_periods_from_set [of _ _ Y D] filing_periods_2021_02_01 by blast
qed

theorem filing_periods_enumeration_witness:
  "(2014::int) < year \<lparr>year = 2021, month = 2, day = 1\<rparr>
   \<and> sorted_wrt period_less (filing_periods_from 2014 \<lparr>year = 2021, month = 2, day = 1\<rparr>)
   \<and> distinct (filing_periods_from 2014 \<lparr>year = 2021, month = 2, day = 1\<rparr>)
   \<and> (2020, 4) \<in> set (filing_periods_from 2014 \<lparr>year = 2021, month = 2, day = 1\<rparr>)
   \<and> (2021, 1) \<in> set (filing_periods_from 2014 \<lparr>year = 2021, month = 2, day = 1\<rparr>)
   \<and> (2021, 2) \<notin> set (filing_periods_from 2014 \<lparr>year = 2021, month = 2, day = 1\<rparr>)
   \<and> (2013, 4) \<notin> set (filing_periods_from 2014 \<lparr>year = 2021, month = 2, day = 1\<rparr>)"
proof -
  have h: "(2014::int) < year \<lparr>year = 2021, month = 2, day = 1\<rparr>"
    by simp
  show ?thesis
    using h filing_periods_enumeration [OF h] by (simp add: quarter_def)
qed

section \<open>Properties of the archive fetcher\<close>

subsection \<open>The names the fetcher builds\<close>

lemma digit_char_in: "d < 10 \<Longrightarrow> digit_char d \<in> set ''0123456789''"
  unfolding digit_char_def by (rule nth_mem) simp

lemma digits_chars: "set (digits n) \<subseteq> set ''0123456789''"
proof (induction n rule: digits.induct)
  case (1 n)
  show ?case
  proof (cases "n < 10")
    case True
    then show ?thesis using digit_char_in [of n] by (subst digits.simps) simp
  next
    case False
    have "n mod 10 < 10" by simp
    then show ?thesis
      using False 1 digit_char_in [of "n mod 10"] by (subst digits.simps) auto
  qed
qed

lemma str_int_no_slash: "CHR ''/'' \<notin> set (str_int i)"
  using digits_chars [of "nat i"] digits_chars [of "nat (- i)"]
  by (auto simp: str_int_def)

lemma split_at_absent: "c \<notin> set s \<Longrightarrow> split_at c s = [s]"
  by (induction s) auto

lemma parts_single: "CHR ''/'' \<notin> set s \<Longrightarrow> s \<noteq> [] \<Longrightarrow> s \<noteq> ''.'' \<Longrightarrow> parts s = [s]"
  by (simp add: parts_def split_at_absent)

lemma path_join_single:
  assumes "CHR ''/'' \<notin> set s" and "s \<noteq> []" and "s \<noteq> ''.''"
  shows "path_join (Relative cs) s = Relative (cs @ [s])"
proof -
  obtain x xs where s: "s = x # xs" using assms(2) by (cases s) auto
  have "x \<noteq> CHR ''/''" using assms(1) s by auto
  then have "take 1 s \<noteq> ''/''" unfolding s by simp
  then show ?thesis unfolding path_join_def parts_single [OF assms] by simp
qed

lemma quarter_dir_eq:
  "quarter_dir yr qtr = Relative [''data'', str_int yr @ ''_'' @ str_int qtr, ''source'']"
proof -
  let ?s = "str_int yr @ ''_'' @ str_int qtr"
  have u: "CHR ''_'' \<in> set ?s" by simp
  have ne: "?s \<noteq> []" by simp
  have nd: "?s \<noteq> ''.''"
  proof
    assume "?s = ''.''"
    then have "set ?s = set ''.''" by (rule arg_cong)
    then show False using u by simp
  qed
  have ns: "CHR ''/'' \<notin> set ?s" using str_int_no_slash by simp
  have a: "path_join (Relative [''data'']) ?s = Relative [''data'', ?s]"
    using path_join_single [OF ns ne nd, of "[''data'']"] by simp
  have b: "path_join (Relative [''data'', ?s]) ''source'' = Relative [''data'', ?s, ''source'']"
    using path_join_single [of "''source''" "[''data'', ?s]"] by simp
  show ?thesis unfolding quarter_dir_def data_path_def a b ..
qed

lemma quarter_dir_plain: "''..'' \<notin> set (components (quarter_dir yr qtr))"
proof -
  let ?s = "str_int yr @ ''_'' @ str_int qtr"
  have u: "CHR ''_'' \<in> set ?s" by simp
  have "?s \<noteq> ''..''"
  proof
    assume "?s = ''..''"
    then have "set ?s = set ''..''" by (rule arg_cong)
    then show False using u by simp
  qed
  then show ?thesis by (simp add: quarter_dir_eq)
qed

subsection \<open>Paths and directories\<close>


lemma node_at_mono: "fs \<subseteq>\<^sub>m fs' \<Longrightarrow> node_at cwd fs p = Some n \<Longrightarrow> node_at cwd fs' p = Some n"
  by (auto simp: node_at_def map_le_def dom_def split: if_splits)

lemma node_at_None: "node_at cwd fs p = None \<Longrightarrow> fs p = None"
  by (simp add: node_at_def split: if_splits)

lemma node_at_upd_same: "node_at cwd fs p = None \<Longrightarrow> node_at cwd (fs(p \<mapsto> v)) p = Some v"
  by (simp add: node_at_def split: if_splits)

lemma node_at_upd_other: "q \<noteq> p \<Longrightarrow> node_at cwd (fs(p \<mapsto> v)) q = node_at cwd fs q"
  by (simp add: node_at_def)

lemma node_at_anchor: "node_at cwd fs (anchor cwd p) = Some Dir"
  by (cases p) (simp_all add: node_at_def)

lemma upd_new_le: "node_at cwd fs p = None \<Longrightarrow> fs \<subseteq>\<^sub>m fs(p \<mapsto> v)"
  by (auto simp: map_le_def dest: node_at_None)

lemma resolve_mono:
  "fs \<subseteq>\<^sub>m fs' \<Longrightarrow> resolve cwd fs cur cs = Inr p \<Longrightarrow> resolve cwd fs' cur cs = Inr p"
proof (induction cs arbitrary: cur)
  case Nil
  then show ?case by simp
next
  case (Cons c cs)
  have d: "node_at cwd fs cur = Some Dir"
    using Cons.prems(2) by (auto split: option.splits node.splits)
  then have d': "node_at cwd fs' cur = Some Dir"
    using Cons.prems(1) by (auto intro: node_at_mono)
  have "resolve cwd fs (if c = ''..'' then butlast cur else cur @ [c]) cs = Inr p"
    using Cons.prems(2) d by simp
  from Cons.IH [OF Cons.prems(1) this] show ?case
    using d' by simp
qed

lemma locate_mono: "fs \<subseteq>\<^sub>m fs' \<Longrightarrow> locate cwd fs p = Inr q \<Longrightarrow> locate cwd fs' p = Inr q"
  unfolding locate_def by (rule resolve_mono)

lemma path_exists_iff:
  "path_exists cwd fs p \<longleftrightarrow> (\<exists>q n. locate cwd fs p = Inr q \<and> node_at cwd fs q = Some n)"
  by (auto simp: path_exists_def split: sum.splits)

lemma is_dir_iff:
  "is_dir cwd fs p \<longleftrightarrow> (\<exists>q. locate cwd fs p = Inr q \<and> node_at cwd fs q = Some Dir)"
  by (auto simp: is_dir_def split: sum.splits)


lemma is_dir_mono: "fs \<subseteq>\<^sub>m fs' \<Longrightarrow> is_dir cwd fs p \<Longrightarrow> is_dir cwd fs' p"
  unfolding is_dir_iff using locate_mono node_at_mono by blast

lemma is_dir_exists: "is_dir cwd fs p \<Longrightarrow> path_exists cwd fs p"
  unfolding is_dir_iff path_exists_iff by blast

lemma resolve_plain:
  "''..'' \<notin> set cs \<Longrightarrow> \<forall>k<length cs. node_at cwd fs (cur @ take k cs) = Some Dir
     \<Longrightarrow> resolve cwd fs cur cs = Inr (cur @ cs)"
proof (induction cs arbitrary: cur)
  case Nil
  show ?case by simp
next
  case (Cons c cs)
  have c: "c \<noteq> ''..''" and n: "''..'' \<notin> set cs" using Cons.prems(1) by auto
  have d: "node_at cwd fs cur = Some Dir" using Cons.prems(2) by (auto dest: spec [of _ 0])
  have "\<forall>k<length cs. node_at cwd fs ((cur @ [c]) @ take k cs) = Some Dir"
  proof (intro allI impI)
    fix k
    assume "k < length cs"
    then have "Suc k < length (c # cs)" by simp
    then have "node_at cwd fs (cur @ take (Suc k) (c # cs)) = Some Dir"
      using Cons.prems(2) by blast
    then show "node_at cwd fs ((cur @ [c]) @ take k cs) = Some Dir" by simp
  qed
  from Cons.IH [OF n this] show ?case using c d by simp
qed

lemma resolve_plain_result:
  "''..'' \<notin> set cs \<Longrightarrow> resolve cwd fs cur cs = Inr p \<Longrightarrow> p = cur @ cs"
proof (induction cs arbitrary: cur)
  case Nil
  then show ?case by simp
next
  case (Cons c cs)
  have c: "c \<noteq> ''..''" and n: "''..'' \<notin> set cs" using Cons.prems(1) by auto
  have "resolve cwd fs (cur @ [c]) cs = Inr p"
    using Cons.prems(2) c by (auto split: option.splits node.splits)
  from Cons.IH [OF n this] show ?case by simp
qed

lemma mkdirs_le: "fs \<subseteq>\<^sub>m fst (mkdirs cwd fs ps)"
proof (induction ps arbitrary: fs)
  case Nil
  show ?case by simp
next
  case (Cons p ps)
  show ?case
  proof (cases "node_at cwd fs p")
    case None
    let ?g = "fs(p \<mapsto> Dir)"
    have a: "fs \<subseteq>\<^sub>m ?g" using None by (rule upd_new_le)
    have b: "?g \<subseteq>\<^sub>m fst (mkdirs cwd ?g ps)" by (rule Cons.IH)
    have "mkdirs cwd fs (p # ps) = mkdirs cwd ?g ps" using None by simp
    then show ?thesis using map_le_trans [OF a b] by simp
  next
    case (Some n)
    then show ?thesis using Cons.IH [of fs] by (cases n) auto
  qed
qed

lemma mkdirs_files: "fst (mkdirs cwd fs ps) q = Some (File c) \<longleftrightarrow> fs q = Some (File c)"
proof (induction ps arbitrary: fs)
  case Nil
  show ?case by simp
next
  case (Cons p ps)
  show ?case
  proof (cases "node_at cwd fs p")
    case None
    let ?g = "fs(p \<mapsto> Dir)"
    have "fs p = None" using None by (rule node_at_None)
    then have a: "?g q = Some (File c) \<longleftrightarrow> fs q = Some (File c)" by auto
    have b: "mkdirs cwd fs (p # ps) = mkdirs cwd ?g ps" using None by simp
    have "fst (mkdirs cwd ?g ps) q = Some (File c) \<longleftrightarrow> ?g q = Some (File c)" by (rule Cons.IH)
    then show ?thesis unfolding b a .
  next
    case (Some n)
    then show ?thesis using Cons.IH [of fs] by (cases n) auto
  qed
qed

lemma mkdirs_dirs:
  "mkdirs cwd fs ps = (fs', None) \<Longrightarrow> p \<in> set ps \<Longrightarrow> node_at cwd fs' p = Some Dir"
proof (induction ps arbitrary: fs)
  case Nil
  then show ?case by simp
next
  case (Cons q ps)
  show ?case
  proof (cases "node_at cwd fs q")
    case None
    let ?g = "fs(q \<mapsto> Dir)"
    have m: "mkdirs cwd ?g ps = (fs', None)" using None Cons.prems(1) by simp
    show ?thesis
    proof (cases "p = q")
      case True
      have "?g \<subseteq>\<^sub>m fs'" using mkdirs_le [of ?g cwd ps] m by simp
      moreover have "node_at cwd ?g q = Some Dir" using None by (rule node_at_upd_same)
      ultimately show ?thesis using True by (auto intro: node_at_mono)
    next
      case False
      then show ?thesis using Cons.IH [OF m] Cons.prems(2) by simp
    qed
  next
    case (Some n)
    show ?thesis
    proof (cases n)
      case Dir
      then have m: "mkdirs cwd fs ps = (fs', None)" using Some Cons.prems(1) by simp
      show ?thesis
      proof (cases "p = q")
        case True
        have "fs \<subseteq>\<^sub>m fs'" using mkdirs_le [of fs cwd ps] m by simp
        then show ?thesis using True Some Dir by (auto intro: node_at_mono)
      next
        case False
        then show ?thesis using Cons.IH [OF m] Cons.prems(2) by simp
      qed
    next
      case (File c)
      then show ?thesis using Some Cons.prems(1) by simp
    qed
  qed
qed

lemma mkdirs_no_file:
  "\<forall>p\<in>set ps. \<forall>c. node_at cwd fs p \<noteq> Some (File c) \<Longrightarrow> snd (mkdirs cwd fs ps) = None"
proof (induction ps arbitrary: fs)
  case Nil
  show ?case by simp
next
  case (Cons p ps)
  show ?case
  proof (cases "node_at cwd fs p")
    case None
    let ?g = "fs(p \<mapsto> Dir)"
    have "\<forall>q\<in>set ps. \<forall>c. node_at cwd ?g q \<noteq> Some (File c)"
    proof (intro ballI allI)
      fix q c
      assume q: "q \<in> set ps"
      show "node_at cwd ?g q \<noteq> Some (File c)"
      proof (cases "q = p")
        case True
        then show ?thesis using node_at_upd_same [OF None, of Dir] by simp
      next
        case False
        then show ?thesis using Cons.prems q by (simp add: node_at_upd_other)
      qed
    qed
    from Cons.IH [OF this] have "snd (mkdirs cwd ?g ps) = None" .
    moreover have "mkdirs cwd fs (p # ps) = mkdirs cwd ?g ps" using None by simp
    ultimately show ?thesis by (rule ssubst [rotated])
  next
    case (Some n)
    then have "n = Dir" using Cons.prems by (cases n) auto
    then show ?thesis using Some Cons.IH [of fs] Cons.prems by simp
  qed
qed

lemma prefixes_of_iff: "q \<in> set (prefixes_of p) \<longleftrightarrow> (\<exists>n. 1 \<le> n \<and> n \<le> length p \<and> q = take n p)"
  by (auto simp: prefixes_of_def simp del: upt_Suc)

lemma ancestors_iff:
  "q \<in> set (ancestors cwd p) \<longleftrightarrow>
     (\<exists>n. 1 \<le> n \<and> n \<le> length (components p) \<and> q = anchor cwd p @ take n (components p))"
proof
  assume "q \<in> set (ancestors cwd p)"
  then obtain r where r: "r \<in> set (prefixes_of (components p))" and q: "q = anchor cwd p @ r"
    by (auto simp: ancestors_def)
  from r obtain n where "1 \<le> n" "n \<le> length (components p)" "r = take n (components p)"
    unfolding prefixes_of_iff by blast
  then show "\<exists>n. 1 \<le> n \<and> n \<le> length (components p) \<and> q = anchor cwd p @ take n (components p)"
    using q by blast
next
  assume "\<exists>n. 1 \<le> n \<and> n \<le> length (components p) \<and> q = anchor cwd p @ take n (components p)"
  then obtain n where n: "1 \<le> n" "n \<le> length (components p)"
    and q: "q = anchor cwd p @ take n (components p)" by blast
  have "take n (components p) \<in> set (prefixes_of (components p))"
    unfolding prefixes_of_iff using n by blast
  then show "q \<in> set (ancestors cwd p)" unfolding q ancestors_def by simp
qed

lemma ensure_dir_le: "fs \<subseteq>\<^sub>m fst (ensure_dir cwd fs p)"
  by (simp add: ensure_dir_def mkdir_parents_def mkdirs_le)

lemma ensure_dir_files: "fst (ensure_dir cwd fs p) q = Some (File c) \<longleftrightarrow> fs q = Some (File c)"
  by (simp add: ensure_dir_def mkdir_parents_def mkdirs_files)


lemma no_file_on_iff:
  "no_file_on cwd fs p \<longleftrightarrow> (\<forall>q\<in>set (ancestors cwd p). \<forall>c. node_at cwd fs q \<noteq> Some (File c))"
  by (auto simp: no_file_on_def list_all_iff split: option.splits node.splits)

lemma ensure_dir_ok: "no_file_on cwd fs p \<Longrightarrow> snd (ensure_dir cwd fs p) = None"
  by (simp add: ensure_dir_def mkdir_parents_def mkdirs_no_file no_file_on_iff)

lemma all_dirs_is_dir:
  assumes "''..'' \<notin> set (components p)"
    and "\<forall>q\<in>set (ancestors cwd p). node_at cwd fs q = Some Dir"
  shows "is_dir cwd fs p"
proof -
  let ?a = "anchor cwd p" and ?cs = "components p"
  have k: "node_at cwd fs (?a @ take k ?cs) = Some Dir" if "k \<le> length ?cs" for k
  proof (cases k)
    case 0
    then show ?thesis by (simp add: node_at_anchor)
  next
    case (Suc j)
    then have "?a @ take k ?cs \<in> set (ancestors cwd p)"
      using that unfolding ancestors_iff by (intro exI [of _ k]) simp
    then show ?thesis using assms(2) by blast
  qed
  then have "\<forall>k<length ?cs. node_at cwd fs (?a @ take k ?cs) = Some Dir" by simp
  from resolve_plain [OF assms(1) this]
  have "locate cwd fs p = Inr (?a @ ?cs)" by (simp add: locate_def)
  moreover have "node_at cwd fs (?a @ ?cs) = Some Dir" using k [of "length ?cs"] by simp
  ultimately show ?thesis unfolding is_dir_iff by blast
qed

lemma ensure_dir_exists:
  assumes "''..'' \<notin> set (components p)" and "ensure_dir cwd fs p = (fs', None)"
  shows "path_exists cwd fs' p"
proof (cases "path_exists cwd fs p")
  case True
  then show ?thesis using assms(2) by (simp add: ensure_dir_def)
next
  case False
  then have "mkdirs cwd fs (ancestors cwd p) = (fs', None)"
    using assms(2) by (simp add: ensure_dir_def mkdir_parents_def)
  then have "\<forall>q\<in>set (ancestors cwd p). node_at cwd fs' q = Some Dir"
    using mkdirs_dirs by blast
  from all_dirs_is_dir [OF assms(1) this] show ?thesis by (rule is_dir_exists)
qed

lemma ensure_dir_is_dir:
  assumes "''..'' \<notin> set (components p)" and "no_file_on cwd fs p"
  shows "is_dir cwd (fst (ensure_dir cwd fs p)) p"
proof -
  obtain fs' where e: "ensure_dir cwd fs p = (fs', None)"
    using ensure_dir_ok [OF assms(2)] by (cases "ensure_dir cwd fs p") auto
  have le: "fs \<subseteq>\<^sub>m fs'" using ensure_dir_le [of fs cwd p] e by simp
  from ensure_dir_exists [OF assms(1) e]
  obtain q n where q: "locate cwd fs' p = Inr q" and n: "node_at cwd fs' q = Some n"
    unfolding path_exists_iff by blast
  have q': "q = anchor cwd p @ components p"
    using q assms(1) unfolding locate_def by (rule resolve_plain_result [rotated])
  have "n = Dir"
  proof (cases "components p = []")
    case True
    then show ?thesis using n q' node_at_anchor [of cwd fs' p] by simp
  next
    case False
    then have m: "q \<in> set (ancestors cwd p)"
      unfolding ancestors_iff q' by (intro exI [of _ "length (components p)"]) (cases "components p"; simp)
    show ?thesis
    proof (cases n)
      case Dir
      then show ?thesis .
    next
      case (File c)
      have "take (length q) cwd \<noteq> q" using n File by (auto simp: node_at_def)
      then have "fs' q = Some (File c)" using n File by (simp add: node_at_def)
      then have "fs q = Some (File c)" using ensure_dir_files [of cwd fs p q c] e by simp
      then have "node_at cwd fs q = Some (File c)"
        using \<open>take (length q) cwd \<noteq> q\<close> by (simp add: node_at_def)
      then show ?thesis using assms(2) m unfolding no_file_on_iff by blast
    qed
  qed
  then show ?thesis using q n e unfolding is_dir_iff by auto
qed

subsection \<open>Extraction\<close>

lemma open_wb_new:
  assumes "\<not> path_exists cwd fs p" and "open_wb cwd fs p = Inr (q, fs1)"
  shows "locate cwd fs p = Inr q \<and> node_at cwd fs q = None \<and> fs1 = fs(q \<mapsto> File [])"
  using assms
  by (auto simp: open_wb_def path_exists_def split: sum.splits option.splits node.splits)


lemma extract_entries_le: "fs \<subseteq>\<^sub>m fst (extract_entries cwd fs path zf names)"
proof (induction names arbitrary: fs)
  case Nil
  show ?case by simp
next
  case (Cons name rest)
  let ?lf = "path_join path name"
  show ?case
  proof (cases "path_exists cwd fs ?lf")
    case True
    then show ?thesis using Cons.IH [of fs] by simp
  next
    case False
    show ?thesis
    proof (cases "open_wb cwd fs ?lf")
      case (Inl e)
      then show ?thesis using False by simp
    next
      case (Inr r)
      obtain q fs1 where r: "r = (q, fs1)" by (cases r) auto
      note o = open_wb_new [OF False Inr [unfolded r]]
      have a: "fs \<subseteq>\<^sub>m fs1" using o upd_new_le by metis
      show ?thesis
      proof (cases "zip_open zf name")
        case None
        then show ?thesis using False Inr r a by simp
      next
        case (Some en)
        show ?thesis
        proof (cases en)
          case (Unreadable e)
          then show ?thesis using False Inr r a Some by simp
        next
          case (Bytes content)
          let ?g = "write_all fs1 q content"
          have g: "?g = fs(q \<mapsto> File content)" using o by (simp add: write_all_def)
          have b: "fs \<subseteq>\<^sub>m ?g" unfolding g using o upd_new_le by metis
          have c: "?g \<subseteq>\<^sub>m fst (extract_entries cwd ?g path zf rest)" by (rule Cons.IH)
          have "extract_entries cwd fs path zf (name # rest) = extract_entries cwd ?g path zf rest"
            using False Inr r Some Bytes by simp
          then show ?thesis using map_le_trans [OF b c] by simp
        qed
      qed
    qed
  qed
qed

lemma zip_open_listed: "name \<in> set (namelist zf) \<Longrightarrow> zip_open zf name \<noteq> None"
  by (simp add: zip_open_def namelist_def map_of_eq_None_iff)



lemma unzip_to_le: "fs \<subseteq>\<^sub>m fst (unzip_to cwd fs path body)"
  by (cases body) (simp_all add: unzip_to_def extract_entries_le)


subsection \<open>One turn of the loop\<close>

lemma disk_py_print [simp]: "disk (py_print s e w) = disk w"
  by (simp add: py_print_def)

lemma out_py_print [simp]: "out (py_print s e w) = out w @ s @ e"
  by (simp add: py_print_def)

lemma requested_py_print [simp]: "requested (py_print s e w) = requested w"
  by (simp add: py_print_def)

lemma disk_except [simp]: "disk (fst (except_BadZipFile w r)) = disk w"
  by (cases "(w, r)" rule: except_BadZipFile.cases) simp_all

lemma requested_except [simp]: "requested (fst (except_BadZipFile w r)) = requested w"
  by (cases "(w, r)" rule: except_BadZipFile.cases) simp_all

lemma fetch_period_mkdir_raises:
  assumes "ensure_dir cwd (disk w) (quarter_dir yr qtr) = (fs1, Some e)"
  shows "fetch_period cwd net w (yr, qtr) =
     (\<lparr>disk = fs1, out = out w @ str_int yr @ ''-Q'' @ str_int qtr @ '' '',
       requested = requested w\<rparr>, Some e)"
  using assms by (simp add: fetch_period_def Let_def py_print_def)

lemma fetch_period_raises:
  assumes "ensure_dir cwd (disk w) (quarter_dir yr qtr) = (fs1, None)"
    and "net (filing_url yr qtr) = Raises"
  shows "fetch_period cwd net w (yr, qtr) =
     (\<lparr>disk = fs1,
       out = out w @ str_int yr @ ''-Q'' @ str_int qtr @ '' '' @ ''url = '' @ filing_url yr qtr @ newline,
       requested = requested w @ [filing_url yr qtr]\<rparr>, Some RequestException)"
  using assms by (simp add: fetch_period_def Let_def py_print_def filing_url_def)

lemma fetch_period_content:
  assumes "ensure_dir cwd (disk w) (quarter_dir yr qtr) = (fs1, None)"
    and "net (filing_url yr qtr) = Content body"
    and "unzip_to cwd fs1 (quarter_dir yr qtr) body = (fs2, r)"
  shows "fetch_period cwd net w (yr, qtr) =
     except_BadZipFile
       \<lparr>disk = fs2,
        out = out w @ str_int yr @ ''-Q'' @ str_int qtr @ '' '' @ ''url = '' @ filing_url yr qtr @ newline,
        requested = requested w @ [filing_url yr qtr]\<rparr> r"
  using assms by (cases w) (simp add: fetch_period_def Let_def py_print_def filing_url_def)

lemma fetch_period_le: "disk w \<subseteq>\<^sub>m disk (fst (fetch_period cwd net w period))"
proof -
  obtain yr qtr where p: "period = (yr, qtr)" by (cases period) auto
  let ?path = "quarter_dir yr qtr"
  obtain fs1 r1 where e: "ensure_dir cwd (disk w) ?path = (fs1, r1)"
    by (cases "ensure_dir cwd (disk w) ?path") auto
  have a: "disk w \<subseteq>\<^sub>m fs1" using ensure_dir_le [of "disk w" cwd ?path] e by simp
  show ?thesis
  proof (cases r1)
    case (Some x)
    then show ?thesis using fetch_period_mkdir_raises [of cwd w yr qtr fs1 x net, OF e [unfolded Some]] a by (simp add: p)
  next
    case None
    note e' = e [unfolded None]
    show ?thesis
    proof (cases "net (filing_url yr qtr)")
      case Raises
      then show ?thesis using fetch_period_raises [of cwd w yr qtr fs1 net, OF e' Raises] a by (simp add: p)
    next
      case (Content body)
      obtain fs2 r2 where x: "unzip_to cwd fs1 ?path body = (fs2, r2)"
        by (cases "unzip_to cwd fs1 ?path body") auto
      have "fs1 \<subseteq>\<^sub>m fs2" using unzip_to_le [of fs1 cwd ?path body] x by simp
      then have "disk w \<subseteq>\<^sub>m fs2" using a by (auto intro: map_le_trans)
      then show ?thesis using fetch_period_content [of cwd w yr qtr fs1 net body fs2 r2, OF e' Content x] by (simp add: p)
    qed
  qed
qed

lemma fetch_filing_data_single:
  "fetch_filing_data cwd net w [period] = fetch_period cwd net w period"
  by (simp split: prod.splits option.splits)

lemma fetch_filing_data_append:
  "fetch_filing_data cwd net w (xs @ ys) =
     (case fetch_filing_data cwd net w xs of
        (w', Some e) \<Rightarrow> (w', Some e)
      | (w', None) \<Rightarrow> fetch_filing_data cwd net w' ys)"
  by (induction xs arbitrary: w) (auto split: prod.splits option.splits)

lemma fetch_filing_data_le: "disk w \<subseteq>\<^sub>m disk (fst (fetch_filing_data cwd net w periods))"
proof (induction periods arbitrary: w)
  case Nil
  show ?case by simp
next
  case (Cons period rest)
  obtain w' r where f: "fetch_period cwd net w period = (w', r)"
    by (cases "fetch_period cwd net w period") auto
  have a: "disk w \<subseteq>\<^sub>m disk w'" using fetch_period_le [of w cwd net period] f by simp
  show ?case
  proof (cases r)
    case None
    then show ?thesis using f map_le_trans [OF a Cons.IH [of w']] by simp
  next
    case (Some e)
    then show ?thesis using f a by simp
  qed
qed

subsection \<open>What a turn requests and prints\<close>

lemma out_except: "\<exists>rest. out (fst (except_BadZipFile w r)) = out w @ rest"
  by (cases "(w, r)" rule: except_BadZipFile.cases) simp_all

lemma fetch_period_requested:
  "requested (fst (fetch_period cwd net w (yr, qtr))) =
     (if snd (ensure_dir cwd (disk w) (quarter_dir yr qtr)) = None
      then requested w @ [filing_url yr qtr] else requested w)"
proof -
  let ?path = "quarter_dir yr qtr"
  obtain fs1 r1 where e: "ensure_dir cwd (disk w) ?path = (fs1, r1)"
    by (cases "ensure_dir cwd (disk w) ?path") auto
  show ?thesis
  proof (cases r1)
    case (Some x)
    then show ?thesis
      using fetch_period_mkdir_raises [of cwd w yr qtr fs1 x net, OF e [unfolded Some]] e by simp
  next
    case None
    note e' = e [unfolded None]
    show ?thesis
    proof (cases "net (filing_url yr qtr)")
      case Raises
      then show ?thesis
        using fetch_period_raises [of cwd w yr qtr fs1 net, OF e' Raises] e' by simp
    next
      case (Content body)
      obtain fs2 r2 where x: "unzip_to cwd fs1 ?path body = (fs2, r2)"
        by (cases "unzip_to cwd fs1 ?path body") auto
      show ?thesis
        using fetch_period_content [of cwd w yr qtr fs1 net body fs2 r2, OF e' Content x] e' by simp
    qed
  qed
qed


lemma fetch_period_out:
  assumes "snd (ensure_dir cwd (disk w) (quarter_dir yr qtr)) = None"
  shows "\<exists>rest. out (fst (fetch_period cwd net w (yr, qtr))) =
           out w @ str_int yr @ ''-Q'' @ str_int qtr @ '' '' @ ''url = '' @ filing_url yr qtr @ newline @ rest"
proof -
  let ?path = "quarter_dir yr qtr"
  obtain fs1 where e: "ensure_dir cwd (disk w) ?path = (fs1, None)"
    using assms by (cases "ensure_dir cwd (disk w) ?path") auto
  show ?thesis
  proof (cases "net (filing_url yr qtr)")
    case Raises
    show ?thesis
      using fetch_period_raises [of cwd w yr qtr fs1 net, OF e Raises] by simp
  next
    case (Content body)
    obtain fs2 r2 where x: "unzip_to cwd fs1 ?path body = (fs2, r2)"
      by (cases "unzip_to cwd fs1 ?path body") auto
    let ?w3 = "\<lparr>disk = fs2,
        out = out w @ str_int yr @ ''-Q'' @ str_int qtr @ '' '' @ ''url = '' @ filing_url yr qtr @ newline,
        requested = requested w @ [filing_url yr qtr]\<rparr>"
    obtain rest where "out (fst (except_BadZipFile ?w3 r2)) = out ?w3 @ rest"
      using out_except by blast
    then show ?thesis
      using fetch_period_content [of cwd w yr qtr fs1 net body fs2 r2, OF e Content x] by simp
  qed
qed

lemma fetch_period_net:
  "net (filing_url yr qtr) = net' (filing_url yr qtr)
     \<Longrightarrow> fetch_period cwd net w (yr, qtr) = fetch_period cwd net' w (yr, qtr)"
  by (simp add: fetch_period_def Let_def filing_url_def)

lemma fetch_period_ok_ensure:
  "snd (fetch_period cwd net w (yr, qtr)) = None
     \<Longrightarrow> snd (ensure_dir cwd (disk w) (quarter_dir yr qtr)) = None"
proof (rule ccontr)
  assume a: "snd (fetch_period cwd net w (yr, qtr)) = None"
    and b: "snd (ensure_dir cwd (disk w) (quarter_dir yr qtr)) \<noteq> None"
  then obtain fs1 x where "ensure_dir cwd (disk w) (quarter_dir yr qtr) = (fs1, Some x)"
    by (cases "ensure_dir cwd (disk w) (quarter_dir yr qtr)") auto
  from fetch_period_mkdir_raises [of cwd w yr qtr fs1 x net, OF this] a show False by simp
qed

lemma fetch_filing_data_requested:
  "snd (fetch_filing_data cwd net w periods) = None
     \<Longrightarrow> requested (fst (fetch_filing_data cwd net w periods))
         = requested w @ map (\<lambda>(yr, qtr). filing_url yr qtr) periods"
proof (induction periods arbitrary: w)
  case Nil
  show ?case by simp
next
  case (Cons period rest)
  obtain yr qtr where p: "period = (yr, qtr)" by (cases period) auto
  obtain w' r where f: "fetch_period cwd net w (yr, qtr) = (w', r)"
    by (cases "fetch_period cwd net w (yr, qtr)") auto
  have r: "r = None" using Cons.prems f p by (cases r) auto
  have "snd (fetch_period cwd net w (yr, qtr)) = None" using f r by simp
  then have "snd (ensure_dir cwd (disk w) (quarter_dir yr qtr)) = None"
    by (rule fetch_period_ok_ensure)
  then have a: "requested w' = requested w @ [filing_url yr qtr]"
    using fetch_period_requested [of cwd net w yr qtr] f by simp
  have b: "fetch_filing_data cwd net w ((yr, qtr) # rest) = fetch_filing_data cwd net w' rest"
    using f r by simp
  then have "snd (fetch_filing_data cwd net w' rest) = None" using Cons.prems p by simp
  from Cons.IH [OF this] show ?case unfolding p b a by simp
qed

lemma SEC_FSN:
  "SEC_URL @ FSN_PATH = ''https://www.sec.gov/files/dera/data/financial-statement-and-notes-data-sets/''"
  by (simp add: SEC_URL_def FSN_PATH_def)


lemma fetch_period_bad_zip:
  assumes "ensure_dir cwd (disk w) (quarter_dir yr qtr) = (fs1, None)"
    and "net (filing_url yr qtr) = Content body"
    and "unzip_to cwd fs1 (quarter_dir yr qtr) body = (fs2, Some (BadZipFile e))"
  shows "fetch_period cwd net w (yr, qtr) =
     (\<lparr>disk = fs2,
       out = out w @ str_int yr @ ''-Q'' @ str_int qtr @ '' '' @ ''url = '' @ filing_url yr qtr @ newline
             @ e @ newline @ ''got bad zip file'' @ newline,
       requested = requested w @ [filing_url yr qtr]\<rparr>, None)"
  using fetch_period_content [of cwd w yr qtr fs1 net body fs2 "Some (BadZipFile e)", OF assms]
  by (simp add: py_print_def)

subsection \<open>The periods of the examples\<close>

lemma str_int_2020: "str_int 2020 = ''2020''"
  by (simp add: str_int_def digits.simps digit_char_def)


lemma str_int_1: "str_int 1 = ''1''"
  by (simp add: str_int_def digits.simps digit_char_def)

lemma str_int_2: "str_int 2 = ''2''"
  by (simp add: str_int_def digits.simps digit_char_def)


lemma quarter_dir_2020_1: "quarter_dir 2020 1 = Relative [''data'', ''2020_1'', ''source'']"
  by (simp add: quarter_dir_eq str_int_2020 str_int_1)

lemma quarter_dir_2020_2: "quarter_dir 2020 2 = Relative [''data'', ''2020_2'', ''source'']"
  by (simp add: quarter_dir_eq str_int_2020 str_int_2)


lemma filing_url_2020_1:
  "filing_url 2020 1 =
     ''https://www.sec.gov/files/dera/data/financial-statement-and-notes-data-sets/2020q1_notes.zip''"
  by (simp add: filing_url_def SEC_URL_def FSN_PATH_def filing_name_def str_int_2020 str_int_1)

lemma filing_url_2020_2:
  "filing_url 2020 2 =
     ''https://www.sec.gov/files/dera/data/financial-statement-and-notes-data-sets/2020q2_notes.zip''"
  by (simp add: filing_url_def SEC_URL_def FSN_PATH_def filing_name_def str_int_2020 str_int_2)

lemma filing_url_2020_differ: "filing_url 2020 2 \<noteq> filing_url 2020 1"
  by (simp add: filing_url_2020_1 filing_url_2020_2)

lemmas run_simps =
  ensure_dir_def path_exists_def locate_def mkdir_parents_def ancestors_def prefixes_of_def
  node_at_def open_wb_def path_join_def parts_def zip_open_def write_all_def namelist_def
  unzip_to_def

lemma ensure_2020_1_fresh:
  "ensure_dir [''nb''] Map.empty (quarter_dir 2020 1) =
     ([[''nb'', ''data''] \<mapsto> Dir, [''nb'', ''data'', ''2020_1''] \<mapsto> Dir,
       [''nb'', ''data'', ''2020_1'', ''source''] \<mapsto> Dir], None)"
  by (simp add: quarter_dir_2020_1 run_simps)

lemma ensure_2020_2_after:
  "ensure_dir [''nb'']
     [[''nb'', ''data''] \<mapsto> Dir, [''nb'', ''data'', ''2020_1''] \<mapsto> Dir,
      [''nb'', ''data'', ''2020_1'', ''source''] \<mapsto> Dir] (quarter_dir 2020 2) =
     ([[''nb'', ''data''] \<mapsto> Dir, [''nb'', ''data'', ''2020_1''] \<mapsto> Dir,
       [''nb'', ''data'', ''2020_1'', ''source''] \<mapsto> Dir,
       [''nb'', ''data'', ''2020_2''] \<mapsto> Dir,
       [''nb'', ''data'', ''2020_2'', ''source''] \<mapsto> Dir], None)"
  by (simp add: quarter_dir_2020_2 run_simps)

lemma extract_dotdot:
  "extract_entries [''nb'']
     [[''nb'', ''data''] \<mapsto> Dir, [''nb'', ''data'', ''2020_1''] \<mapsto> Dir,
       [''nb'', ''data'', ''2020_1'', ''source''] \<mapsto> Dir,
       [''nb'', ''data'', ''2020_2''] \<mapsto> Dir,
       [''nb'', ''data'', ''2020_2'', ''source''] \<mapsto> Dir]
     (quarter_dir 2020 2) [(''../../2020_1/source/sub.tsv'', Bytes ''q'')]
     [''../../2020_1/source/sub.tsv''] =
     ([[''nb'', ''data''] \<mapsto> Dir, [''nb'', ''data'', ''2020_1''] \<mapsto> Dir,
       [''nb'', ''data'', ''2020_1'', ''source''] \<mapsto> Dir,
       [''nb'', ''data'', ''2020_2''] \<mapsto> Dir,
       [''nb'', ''data'', ''2020_2'', ''source''] \<mapsto> Dir,
       [''nb'', ''data'', ''2020_1'', ''source'', ''sub.tsv''] \<mapsto> File ''q''], None)"
  by (simp add: quarter_dir_2020_2 run_simps)


lemma fetch_period_ok:
  assumes "ensure_dir cwd (disk w) (quarter_dir yr qtr) = (fs1, None)"
    and "net (filing_url yr qtr) = Content body"
    and "unzip_to cwd fs1 (quarter_dir yr qtr) body = (fs2, None)"
  shows "fetch_period cwd net w (yr, qtr) =
     (\<lparr>disk = fs2,
       out = out w @ str_int yr @ ''-Q'' @ str_int qtr @ '' '' @ ''url = '' @ filing_url yr qtr @ newline,
       requested = requested w @ [filing_url yr qtr]\<rparr>, None)"
  using fetch_period_content [of cwd w yr qtr fs1 net body fs2 None, OF assms] by simp

lemma fetch_filing_data_step:
  "fetch_period cwd net w period = (w1, None)
     \<Longrightarrow> fetch_filing_data cwd net w (period # rest) = fetch_filing_data cwd net w1 rest"
  by simp

lemma fetch_filing_data_stop:
  "fetch_period cwd net w period = (w1, Some e)
     \<Longrightarrow> fetch_filing_data cwd net w (period # rest) = (w1, Some e)"
  by simp

text \<open>
  A run of the period 2020-Q1 in the working directory \<open>/nb\<close>, on an empty disk, when
  the body retrieved is no archive.
\<close>

lemma run_not_zip:
  assumes "net (filing_url 2020 1) = Content (NotZip e)"
  shows "fetch_period [''nb''] net \<lparr>disk = Map.empty, out = [], requested = []\<rparr> (2020, 1) =
     (\<lparr>disk = [[''nb'', ''data''] \<mapsto> Dir, [''nb'', ''data'', ''2020_1''] \<mapsto> Dir,
               [''nb'', ''data'', ''2020_1'', ''source''] \<mapsto> Dir],
       out = ''2020-Q1 url = https://www.sec.gov/files/dera/data/financial-statement-and-notes-data-sets/2020q1_notes.zip'' @ newline @ e @ newline @ ''got bad zip file'' @ newline,
       requested = [''https://www.sec.gov/files/dera/data/financial-statement-and-notes-data-sets/2020q1_notes.zip'']\<rparr>, None)"
proof -
  let ?w = "\<lparr>disk = Map.empty, out = [], requested = []\<rparr>"
  let ?d = "[[''nb'', ''data''] \<mapsto> Dir, [''nb'', ''data'', ''2020_1''] \<mapsto> Dir,
               [''nb'', ''data'', ''2020_1'', ''source''] \<mapsto> Dir]"
  have a: "ensure_dir [''nb''] (disk ?w) (quarter_dir 2020 1) = (?d, None)"
    by (simp add: ensure_2020_1_fresh)
  have x: "unzip_to [''nb''] ?d (quarter_dir 2020 1) (NotZip e) = (?d, Some (BadZipFile e))"
    by (simp add: unzip_to_def)
  show ?thesis
    using fetch_period_bad_zip [of "[''nb'']" ?w 2020 1 ?d net "NotZip e" ?d e, OF a assms x]
    by (simp add: str_int_2020 str_int_1 filing_url_2020_1)
qed


text \<open>The same run when the archive lists \<open>sub.tsv\<close> alone, which decodes.\<close>

lemma run_one_entry:
  assumes "net (filing_url 2020 1) = Content (ZipFile [(''sub.tsv'', Bytes c)])"
  shows "fetch_period [''nb''] net \<lparr>disk = Map.empty, out = [], requested = []\<rparr> (2020, 1) =
     (\<lparr>disk = [[''nb'', ''data''] \<mapsto> Dir, [''nb'', ''data'', ''2020_1''] \<mapsto> Dir,
               [''nb'', ''data'', ''2020_1'', ''source''] \<mapsto> Dir,
               [''nb'', ''data'', ''2020_1'', ''source'', ''sub.tsv''] \<mapsto> File c],
       out = ''2020-Q1 url = https://www.sec.gov/files/dera/data/financial-statement-and-notes-data-sets/2020q1_notes.zip'' @ newline,
       requested = [''https://www.sec.gov/files/dera/data/financial-statement-and-notes-data-sets/2020q1_notes.zip'']\<rparr>, None)"
proof -
  let ?w = "\<lparr>disk = Map.empty, out = [], requested = []\<rparr>"
  let ?d = "[[''nb'', ''data''] \<mapsto> Dir, [''nb'', ''data'', ''2020_1''] \<mapsto> Dir,
               [''nb'', ''data'', ''2020_1'', ''source''] \<mapsto> Dir]"
  have a: "ensure_dir [''nb''] (disk ?w) (quarter_dir 2020 1) = (?d, None)"
    by (simp add: ensure_2020_1_fresh)
  have x: "unzip_to [''nb''] ?d (quarter_dir 2020 1) (ZipFile [(''sub.tsv'', Bytes c)]) =
      (?d([''nb'', ''data'', ''2020_1'', ''source'', ''sub.tsv''] \<mapsto> File c), None)"
    by (simp add: quarter_dir_2020_1 run_simps)
  show ?thesis
    using fetch_period_ok [of "[''nb'']" ?w 2020 1 ?d net "ZipFile [(''sub.tsv'', Bytes c)]" _, OF a assms x]
    by (simp add: str_int_2020 str_int_1 filing_url_2020_1)
qed

subsection \<open>The remote URL\<close>

text \<open>
  C8. The URL of the period \<open>(yr, qtr)\<close> is the fixed base followed by \<open>str yr\<close>, \<open>q\<close>,
  \<open>str qtr\<close> and \<open>_notes.zip\<close>, a function of the period alone. It is the address the
  fetcher uses: a turn whose directory step does not raise prints it after \<open>url = \<close>
  and calls \<^verbatim>\<open>requests.get\<close> with it, once, and with nothing else; a turn whose
  directory step raises makes no call. What the network answers there, and nowhere
  else, decides the turn. A batch that runs to its end has requested exactly the URLs
  of its periods, in their order.
\<close>

theorem filing_url_deterministic:
  "filing_url yr qtr =
     ''https://www.sec.gov/files/dera/data/financial-statement-and-notes-data-sets/''
     @ str_int yr @ ''q'' @ str_int qtr @ ''_notes.zip''
   \<and> (snd (ensure_dir cwd (disk w) (quarter_dir yr qtr)) = None \<longrightarrow>
        requested (fst (fetch_period cwd net w (yr, qtr))) = requested w @ [filing_url yr qtr]
      \<and> (\<exists>rest. out (fst (fetch_period cwd net w (yr, qtr))) =
            out w @ str_int yr @ ''-Q'' @ str_int qtr @ '' '' @ ''url = '' @ filing_url yr qtr
            @ newline @ rest))
   \<and> (snd (ensure_dir cwd (disk w) (quarter_dir yr qtr)) \<noteq> None \<longrightarrow>
        requested (fst (fetch_period cwd net w (yr, qtr))) = requested w)
   \<and> (net (filing_url yr qtr) = net' (filing_url yr qtr) \<longrightarrow>
        fetch_period cwd net w (yr, qtr) = fetch_period cwd net' w (yr, qtr))
   \<and> (snd (fetch_filing_data cwd net w periods) = None \<longrightarrow>
        requested (fst (fetch_filing_data cwd net w periods))
          = requested w @ map (\<lambda>(yr, qtr). filing_url yr qtr) periods)"
proof -
  have a: "filing_url yr qtr =
     ''https://www.sec.gov/files/dera/data/financial-statement-and-notes-data-sets/''
     @ str_int yr @ ''q'' @ str_int qtr @ ''_notes.zip''"
    by (simp add: filing_url_def SEC_URL_def FSN_PATH_def filing_name_def)
  show ?thesis
    using a fetch_period_requested [of cwd net w yr qtr] fetch_period_out [of cwd w yr qtr net]
      fetch_period_net [of net yr qtr net' cwd w]
      fetch_filing_data_requested [of cwd net w periods]
    by (intro conjI impI) simp_all
qed

theorem filing_url_deterministic_witness:
  "filing_url 2020 1 = ''https://www.sec.gov/files/dera/data/financial-statement-and-notes-data-sets/2020q1_notes.zip''
   \<and> requested (fst (fetch_period [''nb'']
        (\<lambda>url. if url = filing_url 2020 1 then Content (NotZip ''File is not a zip file'') else Raises)
        \<lparr>disk = Map.empty, out = [], requested = []\<rparr> (2020, 1)))
     = [''https://www.sec.gov/files/dera/data/financial-statement-and-notes-data-sets/2020q1_notes.zip'']
   \<and> requested (fst (fetch_period [''nb'']
        (\<lambda>url. if url = filing_url 2020 1 then Content (NotZip ''File is not a zip file'') else Raises)
        \<lparr>disk = [[''nb'', ''data''] \<mapsto> File ''x''], out = [], requested = []\<rparr> (2020, 1)))
     = []
   \<and> fetch_period [''nb'']
        (\<lambda>url. if url = filing_url 2020 1 then Content (NotZip ''File is not a zip file'') else Raises)
        \<lparr>disk = Map.empty, out = [], requested = []\<rparr> (2020, 1)
     = fetch_period [''nb''] (\<lambda>url. Content (NotZip ''File is not a zip file'')) \<lparr>disk = Map.empty, out = [], requested = []\<rparr> (2020, 1)
   \<and> requested (fst (fetch_filing_data [''nb'']
        (\<lambda>url. if url = filing_url 2020 1 then Content (NotZip ''File is not a zip file'') else Raises)
        \<lparr>disk = Map.empty, out = [], requested = []\<rparr> [(2020, 1)]))
     = [''https://www.sec.gov/files/dera/data/financial-statement-and-notes-data-sets/2020q1_notes.zip'']"
proof -
  let ?net = "\<lambda>url. if url = filing_url 2020 1 then Content (NotZip ''File is not a zip file'') else Raises"
  let ?net' = "\<lambda>url::string. Content (NotZip ''File is not a zip file'')"
  let ?w = "\<lparr>disk = Map.empty, out = [], requested = []\<rparr>"
  let ?b = "\<lparr>disk = [[''nb'', ''data''] \<mapsto> File ''x''], out = [], requested = []\<rparr>"
  note t = filing_url_deterministic [where yr = 2020 and qtr = 1 and cwd = "[''nb'']" and w = ?w
      and net = ?net and net' = ?net' and periods = "[(2020, 1)]"]
  note u = filing_url_deterministic [where yr = 2020 and qtr = 1 and cwd = "[''nb'']" and w = ?b
      and net = ?net and net' = ?net' and periods = "[]"]
  have h1: "snd (ensure_dir [''nb''] (disk ?w) (quarter_dir 2020 1)) = None"
    by (simp add: ensure_2020_1_fresh)
  have h2: "snd (ensure_dir [''nb''] (disk ?b) (quarter_dir 2020 1)) \<noteq> None"
    by (simp add: quarter_dir_2020_1 run_simps)
  have h3: "?net (filing_url 2020 1) = ?net' (filing_url 2020 1)"
    by simp
  have n: "?net (filing_url 2020 1) = Content (NotZip ''File is not a zip file'')"
    by simp
  have h4: "snd (fetch_filing_data [''nb''] ?net ?w [(2020, 1)]) = None"
    unfolding fetch_filing_data_single run_not_zip [of ?net "''File is not a zip file''", OF n] by simp
  from t h1 have a: "requested (fst (fetch_period [''nb''] ?net ?w (2020, 1))) = requested ?w @ [filing_url 2020 1]"
    by blast
  from u h2 have b: "requested (fst (fetch_period [''nb''] ?net ?b (2020, 1))) = requested ?b"
    by blast
  from t h3 have c: "fetch_period [''nb''] ?net ?w (2020, 1) = fetch_period [''nb''] ?net' ?w (2020, 1)"
    by blast
  from t h4 have d: "requested (fst (fetch_filing_data [''nb''] ?net ?w [(2020, 1)]))
      = requested ?w @ map (\<lambda>(yr, qtr). filing_url yr qtr) [(2020, 1)]"
    by blast
  have a': "requested (fst (fetch_period [''nb''] ?net ?w (2020, 1))) = [''https://www.sec.gov/files/dera/data/financial-statement-and-notes-data-sets/2020q1_notes.zip'']"
    unfolding a by (simp add: filing_url_2020_1)
  have b': "requested (fst (fetch_period [''nb''] ?net ?b (2020, 1))) = []"
    unfolding b by simp
  have d': "requested (fst (fetch_filing_data [''nb''] ?net ?w [(2020, 1)])) = [''https://www.sec.gov/files/dera/data/financial-statement-and-notes-data-sets/2020q1_notes.zip'']"
    unfolding d by (simp add: filing_url_2020_1)
  show ?thesis
    using filing_url_2020_1 a' b' c d' by (intro conjI)
qed

subsection \<open>Fetching twice\<close>




subsection \<open>Failures and the batch\<close>

text \<open>
  C2, as the code has it. The one failure the loop recognizes is \<^verbatim>\<open>BadZipFile\<close>,
  raised when the body retrieved is no archive or when an entry of the archive fails
  its check. When the turn of a period ends so, the periods before it have run and the
  periods after it run next, from the world that turn left: the disk as the
  unpacking left it, the period's lines printed, its URL requested. The batch does not
  stop. When the body is no archive that disk is the earlier one with the period's
  directories, and holds no new file.
\<close>

theorem bad_zip_does_not_abort_batch:
  assumes "fetch_filing_data cwd net w before = (w1, None)"
    and "ensure_dir cwd (disk w1) (quarter_dir yr qtr) = (fs1, None)"
    and "net (filing_url yr qtr) = Content body"
    and "unzip_to cwd fs1 (quarter_dir yr qtr) body = (fs2, Some (BadZipFile e))"
  shows "fetch_filing_data cwd net w (before @ (yr, qtr) # after) =
           fetch_filing_data cwd net
             \<lparr>disk = fs2,
              out = out w1 @ str_int yr @ ''-Q'' @ str_int qtr @ '' '' @ ''url = '' @ filing_url yr qtr
                    @ newline @ e @ newline @ ''got bad zip file'' @ newline,
              requested = requested w1 @ [filing_url yr qtr]\<rparr>
             after
       \<and> (\<forall>msg. body = NotZip msg \<longrightarrow>
            msg = e \<and> fs2 = fs1 \<and> (\<forall>q c. fs2 q = Some (File c) \<longleftrightarrow> disk w1 q = Some (File c)))"
proof -
  have a: "fetch_filing_data cwd net w (before @ (yr, qtr) # after) =
           fetch_filing_data cwd net
             \<lparr>disk = fs2,
              out = out w1 @ str_int yr @ ''-Q'' @ str_int qtr @ '' '' @ ''url = '' @ filing_url yr qtr
                    @ newline @ e @ newline @ ''got bad zip file'' @ newline,
              requested = requested w1 @ [filing_url yr qtr]\<rparr>
             after"
    using assms(1) fetch_period_bad_zip [of cwd w1 yr qtr fs1 net body fs2 e, OF assms(2) assms(3) assms(4)]
    by (simp add: fetch_filing_data_append)
  have b: "\<forall>msg. body = NotZip msg \<longrightarrow>
            msg = e \<and> fs2 = fs1 \<and> (\<forall>q c. fs2 q = Some (File c) \<longleftrightarrow> disk w1 q = Some (File c))"
  proof (intro allI impI)
    fix msg
    assume "body = NotZip msg"
    then have "msg = e" and "fs2 = fs1" using assms(4) by (simp_all add: unzip_to_def)
    moreover have "\<forall>q c. fs1 q = Some (File c) \<longleftrightarrow> disk w1 q = Some (File c)"
      using ensure_dir_files [of cwd "disk w1" "quarter_dir yr qtr"] assms(2) by simp
    ultimately show "msg = e \<and> fs2 = fs1 \<and> (\<forall>q c. fs2 q = Some (File c) \<longleftrightarrow> disk w1 q = Some (File c))"
      by simp
  qed
  show ?thesis using a b by (rule conjI)
qed

theorem bad_zip_does_not_abort_batch_witness:
  "fetch_filing_data [''nb'']
      (\<lambda>url. if url = filing_url 2020 2 then Content (NotZip ''File is not a zip file'')
            else Content (ZipFile [(''sub.tsv'', Bytes ''s'')]))
      \<lparr>disk = Map.empty, out = [], requested = []\<rparr> [(2020, 1)]
     = (\<lparr>disk = [[''nb'', ''data''] \<mapsto> Dir, [''nb'', ''data'', ''2020_1''] \<mapsto> Dir,
                 [''nb'', ''data'', ''2020_1'', ''source''] \<mapsto> Dir,
                 [''nb'', ''data'', ''2020_1'', ''source'', ''sub.tsv''] \<mapsto> File ''s''],
         out = ''2020-Q1 url = https://www.sec.gov/files/dera/data/financial-statement-and-notes-data-sets/2020q1_notes.zip'' @ newline,
         requested = [''https://www.sec.gov/files/dera/data/financial-statement-and-notes-data-sets/2020q1_notes.zip'']\<rparr>, None)
   \<and> fetch_filing_data [''nb'']
      (\<lambda>url. if url = filing_url 2020 2 then Content (NotZip ''File is not a zip file'')
            else Content (ZipFile [(''sub.tsv'', Bytes ''s'')]))
      \<lparr>disk = Map.empty, out = [], requested = []\<rparr> ([(2020, 1)] @ (2020, 2) # [(2020, 3)])
     = fetch_filing_data [''nb'']
      (\<lambda>url. if url = filing_url 2020 2 then Content (NotZip ''File is not a zip file'')
            else Content (ZipFile [(''sub.tsv'', Bytes ''s'')]))
      \<lparr>disk = [[''nb'', ''data''] \<mapsto> Dir, [''nb'', ''data'', ''2020_1''] \<mapsto> Dir,
               [''nb'', ''data'', ''2020_1'', ''source''] \<mapsto> Dir,
               [''nb'', ''data'', ''2020_1'', ''source'', ''sub.tsv''] \<mapsto> File ''s'',
               [''nb'', ''data'', ''2020_2''] \<mapsto> Dir,
               [''nb'', ''data'', ''2020_2'', ''source''] \<mapsto> Dir],
       out = ''2020-Q1 url = https://www.sec.gov/files/dera/data/financial-statement-and-notes-data-sets/2020q1_notes.zip'' @ newline
             @ ''2020-Q2 url = https://www.sec.gov/files/dera/data/financial-statement-and-notes-data-sets/2020q2_notes.zip'' @ newline
             @ ''File is not a zip file'' @ newline @ ''got bad zip file'' @ newline,
       requested = [''https://www.sec.gov/files/dera/data/financial-statement-and-notes-data-sets/2020q1_notes.zip'',
                    ''https://www.sec.gov/files/dera/data/financial-statement-and-notes-data-sets/2020q2_notes.zip'']\<rparr>
      [(2020, 3)]"
proof -
  let ?m = "''File is not a zip file''"
  let ?net = "\<lambda>url. if url = filing_url 2020 2 then Content (NotZip ?m)
            else Content (ZipFile [(''sub.tsv'', Bytes ''s'')])"
  let ?w = "\<lparr>disk = Map.empty, out = [], requested = []\<rparr>"
  let ?d1 = "[[''nb'', ''data''] \<mapsto> Dir, [''nb'', ''data'', ''2020_1''] \<mapsto> Dir,
                 [''nb'', ''data'', ''2020_1'', ''source''] \<mapsto> Dir,
                 [''nb'', ''data'', ''2020_1'', ''source'', ''sub.tsv''] \<mapsto> File ''s'']"
  let ?w1 = "\<lparr>disk = ?d1, out = ''2020-Q1 url = https://www.sec.gov/files/dera/data/financial-statement-and-notes-data-sets/2020q1_notes.zip'' @ newline,
         requested = [''https://www.sec.gov/files/dera/data/financial-statement-and-notes-data-sets/2020q1_notes.zip'']\<rparr>"
  let ?fs1 = "?d1([''nb'', ''data'', ''2020_2''] \<mapsto> Dir, [''nb'', ''data'', ''2020_2'', ''source''] \<mapsto> Dir)"
  have n1: "?net (filing_url 2020 1) = Content (ZipFile [(''sub.tsv'', Bytes ''s'')])"
    using filing_url_2020_differ by simp
  have h1: "fetch_filing_data [''nb''] ?net ?w [(2020, 1)] = (?w1, None)"
    unfolding fetch_filing_data_single using n1 by (rule run_one_entry)
  have h2: "ensure_dir [''nb''] (disk ?w1) (quarter_dir 2020 2) = (?fs1, None)"
    by (simp add: quarter_dir_2020_2 run_simps)
  have h3: "?net (filing_url 2020 2) = Content (NotZip ?m)"
    by simp
  have h4: "unzip_to [''nb''] ?fs1 (quarter_dir 2020 2) (NotZip ?m) = (?fs1, Some (BadZipFile ?m))"
    by (simp add: unzip_to_def)
  note t = bad_zip_does_not_abort_batch [where cwd = "[''nb'']" and net = ?net and w = ?w
      and before = "[(2020, 1)]" and ?w1.0 = ?w1 and yr = 2020 and qtr = 2 and ?fs1.0 = ?fs1
      and body = "NotZip ?m" and ?fs2.0 = ?fs1 and e = ?m and after = "[(2020, 3)]",
      OF h1 h2 h3 h4]
  from t have "fetch_filing_data [''nb''] ?net ?w ([(2020, 1)] @ (2020, 2) # [(2020, 3)]) =
     fetch_filing_data [''nb''] ?net
       \<lparr>disk = ?fs1,
        out = out ?w1 @ str_int 2020 @ ''-Q'' @ str_int 2 @ '' '' @ ''url = '' @ filing_url 2020 2
              @ newline @ ?m @ newline @ ''got bad zip file'' @ newline,
        requested = requested ?w1 @ [filing_url 2020 2]\<rparr>
       [(2020, 3)]"
    by (rule conjunct1)
  then have c: "fetch_filing_data [''nb''] ?net ?w ([(2020, 1)] @ (2020, 2) # [(2020, 3)]) =
     fetch_filing_data [''nb''] ?net
      \<lparr>disk = ?fs1,
       out = ''2020-Q1 url = https://www.sec.gov/files/dera/data/financial-statement-and-notes-data-sets/2020q1_notes.zip'' @ newline
             @ ''2020-Q2 url = https://www.sec.gov/files/dera/data/financial-statement-and-notes-data-sets/2020q2_notes.zip'' @ newline
             @ ?m @ newline @ ''got bad zip file'' @ newline,
       requested = [''https://www.sec.gov/files/dera/data/financial-statement-and-notes-data-sets/2020q1_notes.zip'',
                    ''https://www.sec.gov/files/dera/data/financial-statement-and-notes-data-sets/2020q2_notes.zip'']\<rparr>
      [(2020, 3)]"
    by (simp only: str_int_2020 str_int_2 filing_url_2020_2 world.simps append.simps append_assoc)
  show ?thesis
    using h1 c by (intro conjI)
qed

text \<open>
  Two failures the batch does not contain. A retrieval that raises is not caught: with
  \<^verbatim>\<open>requests.get\<close> raising for 2020-Q1, the batch for 2020-Q1 and 2020-Q2 ends with
  that exception and nothing of 2020-Q2 is requested, printed or created, although
  2020-Q2 alone would have been fetched. And what a later period does can depend on
  how an earlier one ended: the archive of 2020-Q2 names
  \<open>../../2020_1/source/sub.tsv\<close>, which 2020-Q2 writes when the body of 2020-Q1 was no
  archive and skips when 2020-Q1 has extracted its own \<open>sub.tsv\<close>.
\<close>

theorem request_exception_aborts_batch:
  "fetch_filing_data [''nb'']
      (\<lambda>url. if url = filing_url 2020 1 then Raises else Content (ZipFile [(''sub.tsv'', Bytes ''s'')]))
      \<lparr>disk = Map.empty, out = [], requested = []\<rparr> [(2020, 1), (2020, 2)]
   = (\<lparr>disk = [[''nb'', ''data''] \<mapsto> Dir, [''nb'', ''data'', ''2020_1''] \<mapsto> Dir,
       [''nb'', ''data'', ''2020_1'', ''source''] \<mapsto> Dir],
       out = ''2020-Q1 url = https://www.sec.gov/files/dera/data/financial-statement-and-notes-data-sets/2020q1_notes.zip'' @ newline,
       requested = [''https://www.sec.gov/files/dera/data/financial-statement-and-notes-data-sets/2020q1_notes.zip'']\<rparr>,
      Some RequestException)
   \<and> snd (fetch_filing_data [''nb'']
      (\<lambda>url. if url = filing_url 2020 1 then Raises else Content (ZipFile [(''sub.tsv'', Bytes ''s'')]))
      \<lparr>disk = Map.empty, out = [], requested = []\<rparr> [(2020, 2)]) = None
   \<and> disk (fst (fetch_filing_data [''nb'']
      (\<lambda>url. if url = filing_url 2020 1 then Content (NotZip ''File is not a zip file'')
            else Content (ZipFile [(''../../2020_1/source/sub.tsv'', Bytes ''q'')]))
      \<lparr>disk = Map.empty, out = [], requested = []\<rparr> [(2020, 1), (2020, 2)])) [''nb'', ''data'', ''2020_1'', ''source'', ''sub.tsv'']
     = Some (File ''q'')
   \<and> disk (fst (fetch_filing_data [''nb'']
      (\<lambda>url. if url = filing_url 2020 1 then Content (ZipFile [(''sub.tsv'', Bytes ''p'')])
            else Content (ZipFile [(''../../2020_1/source/sub.tsv'', Bytes ''q'')]))
      \<lparr>disk = Map.empty, out = [], requested = []\<rparr> [(2020, 1), (2020, 2)])) [''nb'', ''data'', ''2020_1'', ''source'', ''sub.tsv'']
     = Some (File ''p'')"
proof -
  let ?w = "\<lparr>disk = Map.empty, out = [], requested = []\<rparr>"
  let ?d = "[[''nb'', ''data''] \<mapsto> Dir, [''nb'', ''data'', ''2020_1''] \<mapsto> Dir,
       [''nb'', ''data'', ''2020_1'', ''source''] \<mapsto> Dir]"
  let ?o1 = "''2020-Q1 url = https://www.sec.gov/files/dera/data/financial-statement-and-notes-data-sets/2020q1_notes.zip'' @ newline"
  let ?netr = "\<lambda>url. if url = filing_url 2020 1 then Raises else Content (ZipFile [(''sub.tsv'', Bytes ''s'')])"
  have e1: "ensure_dir [''nb''] (disk ?w) (quarter_dir 2020 1) = (?d, None)"
    by (simp add: ensure_2020_1_fresh)
  have "?netr (filing_url 2020 1) = Raises" by simp
  from fetch_period_raises [of "[''nb'']" ?w 2020 1 ?d ?netr, OF e1 this]
  have "fetch_period [''nb''] ?netr ?w (2020, 1) =
      (\<lparr>disk = ?d, out = ?o1, requested = [''https://www.sec.gov/files/dera/data/financial-statement-and-notes-data-sets/2020q1_notes.zip'']\<rparr>, Some RequestException)"
    by (simp add: str_int_2020 str_int_1 filing_url_2020_1)
  then have a: "fetch_filing_data [''nb''] ?netr ?w [(2020, 1), (2020, 2)] =
      (\<lparr>disk = ?d, out = ?o1, requested = [''https://www.sec.gov/files/dera/data/financial-statement-and-notes-data-sets/2020q1_notes.zip'']\<rparr>, Some RequestException)"
    by (rule fetch_filing_data_stop)
  let ?d2 = "[[''nb'', ''data''] \<mapsto> Dir, [''nb'', ''data'', ''2020_2''] \<mapsto> Dir,
       [''nb'', ''data'', ''2020_2'', ''source''] \<mapsto> Dir]"
  have e2: "ensure_dir [''nb''] (disk ?w) (quarter_dir 2020 2) = (?d2, None)"
    by (simp add: quarter_dir_2020_2 run_simps)
  have n2: "?netr (filing_url 2020 2) = Content (ZipFile [(''sub.tsv'', Bytes ''s'')])"
    by (simp add: filing_url_2020_differ)
  have x2: "unzip_to [''nb''] ?d2 (quarter_dir 2020 2) (ZipFile [(''sub.tsv'', Bytes ''s'')]) =
      (?d2([''nb'', ''data'', ''2020_2'', ''source'', ''sub.tsv''] \<mapsto> File ''s''), None)"
    by (simp add: quarter_dir_2020_2 run_simps)
  have "snd (fetch_period [''nb''] ?netr ?w (2020, 2)) = None"
    using fetch_period_ok [of "[''nb'']" ?w 2020 2 ?d2 ?netr "ZipFile [(''sub.tsv'', Bytes ''s'')]" _, OF e2 n2 x2]
    by simp
  then have b: "snd (fetch_filing_data [''nb''] ?netr ?w [(2020, 2)]) = None"
    by (simp only: fetch_filing_data_single)
  let ?zq = "[(''../../2020_1/source/sub.tsv'', Bytes ''q'')]"
  let ?m = "''File is not a zip file''"
  let ?netf = "\<lambda>url. if url = filing_url 2020 1 then Content (NotZip ?m) else Content (ZipFile ?zq)"
  let ?w1f = "\<lparr>disk = ?d, out = ?o1 @ ?m @ newline @ ''got bad zip file'' @ newline,
       requested = [''https://www.sec.gov/files/dera/data/financial-statement-and-notes-data-sets/2020q1_notes.zip'']\<rparr>"
  let ?d12 = "?d([''nb'', ''data'', ''2020_2''] \<mapsto> Dir, [''nb'', ''data'', ''2020_2'', ''source''] \<mapsto> Dir)"
  have "?netf (filing_url 2020 1) = Content (NotZip ?m)" by simp
  from run_not_zip [of ?netf ?m, OF this]
  have f1: "fetch_period [''nb''] ?netf ?w (2020, 1) = (?w1f, None)"
    by simp
  have e3: "ensure_dir [''nb''] (disk ?w1f) (quarter_dir 2020 2) = (?d12, None)"
    by (simp add: ensure_2020_2_after)
  have n3: "?netf (filing_url 2020 2) = Content (ZipFile ?zq)"
    by (simp add: filing_url_2020_differ)
  have x3: "unzip_to [''nb''] ?d12 (quarter_dir 2020 2) (ZipFile ?zq) =
      (?d12([''nb'', ''data'', ''2020_1'', ''source'', ''sub.tsv''] \<mapsto> File ''q''), None)"
    using extract_dotdot by (simp add: unzip_to_def namelist_def)
  have "disk (fst (fetch_period [''nb''] ?netf ?w1f (2020, 2))) = ?d12([''nb'', ''data'', ''2020_1'', ''source'', ''sub.tsv''] \<mapsto> File ''q'')"
    using fetch_period_ok [of "[''nb'']" ?w1f 2020 2 ?d12 ?netf "ZipFile ?zq" _, OF e3 n3 x3]
    by simp
  then have "disk (fst (fetch_filing_data [''nb''] ?netf ?w1f [(2020, 2)])) [''nb'', ''data'', ''2020_1'', ''source'', ''sub.tsv''] = Some (File ''q'')"
    by (simp only: fetch_filing_data_single fun_upd_same)
  then have c: "disk (fst (fetch_filing_data [''nb''] ?netf ?w [(2020, 1), (2020, 2)])) [''nb'', ''data'', ''2020_1'', ''source'', ''sub.tsv'']
      = Some (File ''q'')"
    unfolding fetch_filing_data_step [OF f1] .
  let ?neto = "\<lambda>url. if url = filing_url 2020 1 then Content (ZipFile [(''sub.tsv'', Bytes ''p'')])
            else Content (ZipFile ?zq)"
  let ?dp = "?d([''nb'', ''data'', ''2020_1'', ''source'', ''sub.tsv''] \<mapsto> File ''p'')"
  let ?w1o = "\<lparr>disk = ?dp, out = ?o1, requested = [''https://www.sec.gov/files/dera/data/financial-statement-and-notes-data-sets/2020q1_notes.zip'']\<rparr>"
  let ?dp2 = "?dp([''nb'', ''data'', ''2020_2''] \<mapsto> Dir, [''nb'', ''data'', ''2020_2'', ''source''] \<mapsto> Dir)"
  have "?neto (filing_url 2020 1) = Content (ZipFile [(''sub.tsv'', Bytes ''p'')])" by simp
  from run_one_entry [of ?neto "''p''", OF this]
  have g1: "fetch_period [''nb''] ?neto ?w (2020, 1) = (?w1o, None)"
    by simp
  have e4: "ensure_dir [''nb''] (disk ?w1o) (quarter_dir 2020 2) = (?dp2, None)"
    by (simp add: quarter_dir_2020_2 run_simps)
  have n4: "?neto (filing_url 2020 2) = Content (ZipFile ?zq)"
    by (simp add: filing_url_2020_differ)
  have x4: "unzip_to [''nb''] ?dp2 (quarter_dir 2020 2) (ZipFile ?zq) = (?dp2, None)"
    by (simp add: quarter_dir_2020_2 run_simps)
  have "disk (fst (fetch_period [''nb''] ?neto ?w1o (2020, 2))) = ?dp2"
    using fetch_period_ok [of "[''nb'']" ?w1o 2020 2 ?dp2 ?neto "ZipFile ?zq" _, OF e4 n4 x4]
    by simp
  then have k: "disk (fst (fetch_filing_data [''nb''] ?neto ?w1o [(2020, 2)])) = ?dp2"
    by (simp only: fetch_filing_data_single)
  have "disk (fst (fetch_filing_data [''nb''] ?neto ?w1o [(2020, 2)])) [''nb'', ''data'', ''2020_1'', ''source'', ''sub.tsv''] = Some (File ''p'')"
    unfolding k by simp
  then have d: "disk (fst (fetch_filing_data [''nb''] ?neto ?w [(2020, 1), (2020, 2)])) [''nb'', ''data'', ''2020_1'', ''source'', ''sub.tsv'']
      = Some (File ''p'')"
    unfolding fetch_filing_data_step [OF g1] .
  show ?thesis
    using a b c d by (intro conjI)
qed

subsection \<open>A body that is no archive\<close>




subsection \<open>The quarter's directory\<close>

text \<open>
  C10, as the code has it. When no regular file sits at \<open>data/<yr>_<qtr>/source\<close> or
  at a directory above it, the directory step of the period's turn does not raise and
  leaves the path a directory, with the directories that lead to it; it adds no file.
  Only then is the archive asked for. The path is still a directory when the turn is
  over, whatever the network did: also when the retrieval raised, and when the body
  was no archive, in which cases the disk is the one the directory step left.
\<close>

theorem fetch_creates_quarter_dir:
  assumes "no_file_on cwd (disk w) (quarter_dir yr qtr)"
  shows "quarter_dir yr qtr = Relative [''data'', str_int yr @ ''_'' @ str_int qtr, ''source'']
       \<and> snd (ensure_dir cwd (disk w) (quarter_dir yr qtr)) = None
       \<and> is_dir cwd (fst (ensure_dir cwd (disk w) (quarter_dir yr qtr))) (quarter_dir yr qtr)
       \<and> (\<forall>q c. fst (ensure_dir cwd (disk w) (quarter_dir yr qtr)) q = Some (File c)
                \<longleftrightarrow> disk w q = Some (File c))
       \<and> requested (fst (fetch_filing_data cwd net w [(yr, qtr)])) = requested w @ [filing_url yr qtr]
       \<and> is_dir cwd (disk (fst (fetch_filing_data cwd net w [(yr, qtr)]))) (quarter_dir yr qtr)
       \<and> is_dir cwd (disk (fst (fetch_filing_data cwd net w [(yr, qtr)]))) (Relative [''data''])
       \<and> is_dir cwd (disk (fst (fetch_filing_data cwd net w [(yr, qtr)])))
           (Relative [''data'', str_int yr @ ''_'' @ str_int qtr])
       \<and> (net (filing_url yr qtr) = Raises \<longrightarrow>
            snd (fetch_filing_data cwd net w [(yr, qtr)]) = Some RequestException
          \<and> disk (fst (fetch_filing_data cwd net w [(yr, qtr)]))
              = fst (ensure_dir cwd (disk w) (quarter_dir yr qtr)))
       \<and> (\<forall>e. net (filing_url yr qtr) = Content (NotZip e) \<longrightarrow>
            snd (fetch_filing_data cwd net w [(yr, qtr)]) = None
          \<and> disk (fst (fetch_filing_data cwd net w [(yr, qtr)]))
              = fst (ensure_dir cwd (disk w) (quarter_dir yr qtr)))"
proof -
  let ?path = "quarter_dir yr qtr"
  let ?mid = "str_int yr @ ''_'' @ str_int qtr"
  let ?after = "disk (fst (fetch_period cwd net w (yr, qtr)))"
  have q: "?path = Relative [''data'', ?mid, ''source'']" by (rule quarter_dir_eq)
  have s: "snd (ensure_dir cwd (disk w) ?path) = None" using assms by (rule ensure_dir_ok)
  then obtain fs1 where e: "ensure_dir cwd (disk w) ?path = (fs1, None)"
    by (cases "ensure_dir cwd (disk w) ?path") auto
  have d: "is_dir cwd fs1 ?path"
    using ensure_dir_is_dir [OF quarter_dir_plain assms] e by simp
  have f: "\<forall>q c. fs1 q = Some (File c) \<longleftrightarrow> disk w q = Some (File c)"
    using ensure_dir_files [of cwd "disk w" ?path] e by simp
  have r: "requested (fst (fetch_period cwd net w (yr, qtr))) = requested w @ [filing_url yr qtr]"
    using s by (simp add: fetch_period_requested)
  have le: "fs1 \<subseteq>\<^sub>m ?after"
  proof (cases "net (filing_url yr qtr)")
    case Raises
    show ?thesis using fetch_period_raises [of cwd w yr qtr fs1 net, OF e Raises] by simp
  next
    case (Content body)
    obtain fs2 r2 where x: "unzip_to cwd fs1 ?path body = (fs2, r2)"
      by (cases "unzip_to cwd fs1 ?path body") auto
    have "fs1 \<subseteq>\<^sub>m fs2" using unzip_to_le [of fs1 cwd ?path body] x by simp
    then show ?thesis
      using fetch_period_content [of cwd w yr qtr fs1 net body fs2 r2, OF e Content x] by simp
  qed
  have a: "is_dir cwd ?after ?path" using le d by (rule is_dir_mono)
  have up: "is_dir cwd ?after (Relative [''data'']) \<and> is_dir cwd ?after (Relative [''data'', ?mid])"
  proof -
    obtain p where p: "locate cwd ?after ?path = Inr p" using a unfolding is_dir_iff by blast
    have m: "?mid \<noteq> ''..''" using quarter_dir_plain [of yr qtr] unfolding q by simp
    have "node_at cwd ?after (cwd @ [''data'']) = Some Dir
        \<and> node_at cwd ?after (cwd @ [''data'', ?mid]) = Some Dir"
      using p m unfolding q locate_def
      by (auto simp: node_at_anchor split: option.splits node.splits)
    moreover have "node_at cwd ?after cwd = Some Dir" by (simp add: node_at_def)
    ultimately show ?thesis
      using m by (simp add: is_dir_def locate_def)
  qed
  have b: "net (filing_url yr qtr) = Raises \<longrightarrow>
            snd (fetch_period cwd net w (yr, qtr)) = Some RequestException \<and> ?after = fs1"
    using fetch_period_raises [of cwd w yr qtr fs1 net, OF e] by simp
  have c: "\<forall>msg. net (filing_url yr qtr) = Content (NotZip msg) \<longrightarrow>
            snd (fetch_period cwd net w (yr, qtr)) = None \<and> ?after = fs1"
  proof (intro allI impI)
    fix msg
    assume n: "net (filing_url yr qtr) = Content (NotZip msg)"
    have "unzip_to cwd fs1 ?path (NotZip msg) = (fs1, Some (BadZipFile msg))"
      by (simp add: unzip_to_def)
    from fetch_period_bad_zip [of cwd w yr qtr fs1 net "NotZip msg" fs1 msg, OF e n this]
    show "snd (fetch_period cwd net w (yr, qtr)) = None \<and> ?after = fs1" by simp
  qed
  show ?thesis
    unfolding fetch_filing_data_single using q s d f r a up b c e by simp
qed

theorem fetch_creates_quarter_dir_witness:
  "no_file_on [''nb''] (disk \<lparr>disk = Map.empty, out = [], requested = []\<rparr>) (quarter_dir 2020 1)
   \<and> quarter_dir 2020 1 = Relative [''data'', ''2020_1'', ''source'']
   \<and> is_dir [''nb''] (disk (fst (fetch_filing_data [''nb''] (\<lambda>url. Raises) \<lparr>disk = Map.empty, out = [], requested = []\<rparr> [(2020, 1)])))
        (quarter_dir 2020 1)
   \<and> is_dir [''nb''] (disk (fst (fetch_filing_data [''nb''] (\<lambda>url. Raises) \<lparr>disk = Map.empty, out = [], requested = []\<rparr> [(2020, 1)])))
        (Relative [''data''])
   \<and> requested (fst (fetch_filing_data [''nb''] (\<lambda>url. Raises) \<lparr>disk = Map.empty, out = [], requested = []\<rparr> [(2020, 1)]))
        = [''https://www.sec.gov/files/dera/data/financial-statement-and-notes-data-sets/2020q1_notes.zip'']
   \<and> snd (fetch_filing_data [''nb''] (\<lambda>url. Raises) \<lparr>disk = Map.empty, out = [], requested = []\<rparr> [(2020, 1)]) = Some RequestException"
proof -
  let ?w = "\<lparr>disk = Map.empty, out = [], requested = []\<rparr>"
  have h: "no_file_on [''nb''] (disk ?w) (quarter_dir 2020 1)"
    by (simp add: no_file_on_def quarter_dir_2020_1 ancestors_def prefixes_of_def node_at_def)
  note t = fetch_creates_quarter_dir [of "[''nb'']" ?w 2020 1 "\<lambda>url. Raises", OF h]
  from t have r: "requested (fst (fetch_filing_data [''nb''] (\<lambda>url. Raises) ?w [(2020, 1)]))
      = requested ?w @ [filing_url 2020 1]"
    by blast
  have r': "requested (fst (fetch_filing_data [''nb''] (\<lambda>url. Raises) ?w [(2020, 1)]))
        = [''https://www.sec.gov/files/dera/data/financial-statement-and-notes-data-sets/2020q1_notes.zip'']"
    unfolding r by (simp add: filing_url_2020_1)
  from t have a: "is_dir [''nb''] (disk (fst (fetch_filing_data [''nb''] (\<lambda>url. Raises) ?w [(2020, 1)])))
        (quarter_dir 2020 1)"
    and b: "is_dir [''nb''] (disk (fst (fetch_filing_data [''nb''] (\<lambda>url. Raises) ?w [(2020, 1)])))
        (Relative [''data''])"
    and c: "snd (fetch_filing_data [''nb''] (\<lambda>url. Raises) ?w [(2020, 1)]) = Some RequestException"
    by blast+
  show ?thesis
    using h quarter_dir_2020_1 a b r' c by (intro conjI)
qed

text \<open>
  A regular file where the directory should be. With a file at
  \<open>data/2020_1/source\<close> the path exists, the directory step is skipped, the body is
  asked for and is no archive: the fetch returns and the path is a file still. With a
  file at \<open>data/2020_1\<close> the directory step raises: nothing is requested, and the
  exception leaves the loop.
\<close>

theorem quarter_dir_blocked_by_file:
  "fetch_filing_data [''nb''] (\<lambda>url. Content (NotZip ''File is not a zip file''))
      \<lparr>disk = [[''nb'', ''data''] \<mapsto> Dir, [''nb'', ''data'', ''2020_1''] \<mapsto> Dir,
               [''nb'', ''data'', ''2020_1'', ''source''] \<mapsto> File ''x''],
       out = [], requested = []\<rparr> [(2020, 1)]
     = (\<lparr>disk = [[''nb'', ''data''] \<mapsto> Dir, [''nb'', ''data'', ''2020_1''] \<mapsto> Dir,
                 [''nb'', ''data'', ''2020_1'', ''source''] \<mapsto> File ''x''],
         out = ''2020-Q1 url = https://www.sec.gov/files/dera/data/financial-statement-and-notes-data-sets/2020q1_notes.zip'' @ newline
               @ ''File is not a zip file'' @ newline @ ''got bad zip file'' @ newline,
         requested = [''https://www.sec.gov/files/dera/data/financial-statement-and-notes-data-sets/2020q1_notes.zip'']\<rparr>,
        None)
   \<and> \<not> is_dir [''nb'']
         [[''nb'', ''data''] \<mapsto> Dir, [''nb'', ''data'', ''2020_1''] \<mapsto> Dir,
          [''nb'', ''data'', ''2020_1'', ''source''] \<mapsto> File ''x'']
         (quarter_dir 2020 1)
   \<and> fetch_filing_data [''nb''] (\<lambda>url. Content (NotZip ''File is not a zip file''))
      \<lparr>disk = [[''nb'', ''data''] \<mapsto> Dir, [''nb'', ''data'', ''2020_1''] \<mapsto> File ''x''],
       out = [], requested = []\<rparr> [(2020, 1)]
     = (\<lparr>disk = [[''nb'', ''data''] \<mapsto> Dir, [''nb'', ''data'', ''2020_1''] \<mapsto> File ''x''],
         out = ''2020-Q1 '', requested = []\<rparr>,
        Some NotADirectoryError)
   \<and> \<not> is_dir [''nb'']
         [[''nb'', ''data''] \<mapsto> Dir, [''nb'', ''data'', ''2020_1''] \<mapsto> File ''x'']
         (quarter_dir 2020 1)"
proof -
  let ?m = "''File is not a zip file''"
  let ?net = "\<lambda>url::string. Content (NotZip ?m)"
  let ?df = "[[''nb'', ''data''] \<mapsto> Dir, [''nb'', ''data'', ''2020_1''] \<mapsto> Dir,
               [''nb'', ''data'', ''2020_1'', ''source''] \<mapsto> File ''x'']"
  let ?wf = "\<lparr>disk = ?df, out = [], requested = []\<rparr>"
  let ?dg = "[[''nb'', ''data''] \<mapsto> Dir, [''nb'', ''data'', ''2020_1''] \<mapsto> File ''x'']"
  let ?wg = "\<lparr>disk = ?dg, out = [], requested = []\<rparr>"
  have e1: "ensure_dir [''nb''] (disk ?wf) (quarter_dir 2020 1) = (?df, None)"
    by (simp add: quarter_dir_2020_1 run_simps)
  have n: "?net (filing_url 2020 1) = Content (NotZip ?m)"
    by simp
  have x1: "unzip_to [''nb''] ?df (quarter_dir 2020 1) (NotZip ?m) = (?df, Some (BadZipFile ?m))"
    by (simp add: unzip_to_def)
  have a: "fetch_filing_data [''nb''] ?net ?wf [(2020, 1)] =
      (\<lparr>disk = ?df,
         out = ''2020-Q1 url = https://www.sec.gov/files/dera/data/financial-statement-and-notes-data-sets/2020q1_notes.zip'' @ newline
               @ ?m @ newline @ ''got bad zip file'' @ newline,
         requested = [''https://www.sec.gov/files/dera/data/financial-statement-and-notes-data-sets/2020q1_notes.zip'']\<rparr>,
        None)"
    unfolding fetch_filing_data_single
    using fetch_period_bad_zip [of "[''nb'']" ?wf 2020 1 ?df ?net "NotZip ?m" ?df ?m, OF e1 n x1]
    by (simp add: str_int_2020 str_int_1 filing_url_2020_1)
  have b: "\<not> is_dir [''nb''] ?df (quarter_dir 2020 1)"
    by (simp add: quarter_dir_2020_1 is_dir_def locate_def node_at_def)
  have e2: "ensure_dir [''nb''] (disk ?wg) (quarter_dir 2020 1) = (?dg, Some NotADirectoryError)"
    by (simp add: quarter_dir_2020_1 run_simps)
  have c: "fetch_filing_data [''nb''] ?net ?wg [(2020, 1)] =
      (\<lparr>disk = ?dg, out = ''2020-Q1 '', requested = []\<rparr>, Some NotADirectoryError)"
    unfolding fetch_filing_data_single
    using fetch_period_mkdir_raises [of "[''nb'']" ?wg 2020 1 ?dg NotADirectoryError ?net, OF e2]
    by (simp add: str_int_2020 str_int_1)
  have d: "\<not> is_dir [''nb''] ?dg (quarter_dir 2020 1)"
    by (simp add: quarter_dir_2020_1 is_dir_def locate_def node_at_def)
  show ?thesis
    using a b c d by (intro conjI)
qed

section \<open>Properties of the bucket uploader\<close>

lemma walk_prefix: "(r, ds, fs) \<in> set (walk d t) \<Longrightarrow> \<exists>s. r = d @ s"
proof (induction d t arbitrary: r ds fs rule: walk.induct)
  case (1 dirpath filenames dirs)
  then show ?case
    by (fastforce)
qed

lemma calls_upload_file_to_s3:
  "calls (upload_file_to_s3 f b k c) = [S3_upload f b k]"
  by (simp add: calls_def upload_file_to_s3_def)

lemma calls_append: "calls (xs @ ys) = calls xs @ calls ys"
  by (simp add: calls_def)

lemma calls_Cons: "calls (e # es) = (if is_call e then e # calls es else calls es)"
  by (simp add: calls_def)

lemma calls_Nil: "calls [] = []"
  by (simp add: calls_def)

lemma calls_parallel_files:
  "calls (concat (map (\<lambda>file.
         let file_path = root @ ''/'' @ file in
         [Stdout (''uploading file: '' @ '' '' @ file_path @ newline)]
         @ upload_file_to_s3 file_path bucket (drop 2 file_path) s3_client
         @ [Pool_submit file_path bucket (drop 2 file_path)]) files))
   = concat (map (\<lambda>file_path. [S3_upload file_path bucket (drop 2 file_path),
                               Pool_submit file_path bucket (drop 2 file_path)])
       (map (\<lambda>file. root @ ''/'' @ file) files))"
  by (induction files)
     (simp_all add: Let_def calls_append calls_Cons calls_Nil calls_upload_file_to_s3 del: append.simps)

lemma calls_parallel_walk:
  "calls (concat (map (\<lambda>(root, dirs, files).
       concat (map (\<lambda>file.
         let file_path = root @ ''/'' @ file in
         [Stdout (''uploading file: '' @ '' '' @ file_path @ newline)]
         @ upload_file_to_s3 file_path bucket (drop 2 file_path) s3_client
         @ [Pool_submit file_path bucket (drop 2 file_path)]) files)) triples))
   = concat (map (\<lambda>file_path. [S3_upload file_path bucket (drop 2 file_path),
                               Pool_submit file_path bucket (drop 2 file_path)])
       [root @ ''/'' @ file. (root, dirs, files) \<leftarrow> triples, file \<leftarrow> files])"
proof (induction triples)
  case Nil
  show ?case by (simp add: calls_Nil)
next
  case (Cons t triples)
  obtain root dirs files where t: "t = (root, dirs, files)"
    by (cases t) auto
  show ?case
    using Cons.IH calls_parallel_files [of root bucket s3_client files]
    by (simp add: t calls_append del: append.simps)
qed

lemma calls_parallel:
  "calls (parallel_upload_folder_to_s3 cwd folder bucket s3_client) =
     concat (map (\<lambda>file_path. [S3_upload file_path bucket (drop 2 file_path),
                               Pool_submit file_path bucket (drop 2 file_path)])
       (walked_files cwd))"
  unfolding parallel_upload_folder_to_s3_def walked_files_def
  by (rule calls_parallel_walk)

lemma calls_upload_files:
  "calls (concat (map (\<lambda>file.
         let file_path = root @ ''/'' @ file in
         upload_file_to_s3 file_path bucket (drop 2 file_path) s3_client
         @ [Stdout (''uploading file: '' @ '' '' @ file_path @ newline)]) files))
   = map (\<lambda>file_path. S3_upload file_path bucket (drop 2 file_path))
       (map (\<lambda>file. root @ ''/'' @ file) files)"
  by (induction files)
     (simp_all add: Let_def calls_append calls_Cons calls_Nil calls_upload_file_to_s3 del: append.simps)

lemma calls_upload_walk:
  "calls (concat (map (\<lambda>(root, dirs, files).
       concat (map (\<lambda>file.
         let file_path = root @ ''/'' @ file in
         upload_file_to_s3 file_path bucket (drop 2 file_path) s3_client
         @ [Stdout (''uploading file: '' @ '' '' @ file_path @ newline)]) files)) triples))
   = map (\<lambda>file_path. S3_upload file_path bucket (drop 2 file_path))
       [root @ ''/'' @ file. (root, dirs, files) \<leftarrow> triples, file \<leftarrow> files]"
proof (induction triples)
  case Nil
  show ?case by (simp add: calls_Nil)
next
  case (Cons t triples)
  obtain root dirs files where t: "t = (root, dirs, files)"
    by (cases t) auto
  show ?case
    using Cons.IH calls_upload_files [of root bucket s3_client files]
    by (simp add: t calls_append del: append.simps)
qed

lemma calls_seq:
  "calls (upload_folder_to_s3 cwd folder bucket s3_client) =
     map (\<lambda>file_path. S3_upload file_path bucket (drop 2 file_path)) (walked_files cwd)"
  unfolding upload_folder_to_s3_def walked_files_def
  by (rule calls_upload_walk)

lemma walked_files_root:
  "f \<in> set (walked_files cwd) \<Longrightarrow> \<exists>rel. f = ''./data'' @ rel"
  unfolding walked_files_def os_walk_def
  by (auto split: option.splits dest!: walk_prefix)

lemma in_calls: "e \<in> set es \<Longrightarrow> is_call e \<Longrightarrow> e \<in> set (calls es)"
  by (simp add: calls_def)

lemma walked_key:
  assumes "f \<in> set (walked_files cwd)"
  shows "f = ''./'' @ drop 2 f \<and> (\<exists>rel. f = ''./data'' @ rel \<and> drop 2 f = ''data'' @ rel)"
proof -
  obtain rel where "f = ''./data'' @ rel"
    using walked_files_root [OF assms] by blast
  then show ?thesis by simp
qed

text \<open>
  C6. Every upload the uploader makes, and every upload task it submits, has as its key
  the file's path without its first two characters, the bucket it was given, and
  nothing else changed: the path is \<open>./\<close> followed by the key. The walk starts at
  \<open>./data\<close>, so the path is \<open>./data\<close> followed by the rest and the key is \<open>data\<close>
  followed by the same rest, slashes and all. The sequential uploader makes one such
  upload for each file the walk finds, in the walk's order.
\<close>

theorem upload_key_strips_prefix:
  assumes "S3_upload f b k \<in> set (upload_folder_to_s3 cwd folder bucket s3_client)
         \<or> S3_upload f b k \<in> set (parallel_upload_folder_to_s3 cwd folder bucket s3_client)
         \<or> Pool_submit f b k \<in> set (parallel_upload_folder_to_s3 cwd folder bucket s3_client)"
  shows "b = bucket \<and> k = drop 2 f \<and> f = ''./'' @ k
       \<and> (\<exists>rel. f = ''./data'' @ rel \<and> k = ''data'' @ rel)
       \<and> calls (upload_folder_to_s3 cwd folder bucket s3_client) =
           map (\<lambda>file_path. S3_upload file_path bucket (drop 2 file_path)) (walked_files cwd)"
proof -
  have "f \<in> set (walked_files cwd) \<and> b = bucket \<and> k = drop 2 f"
    using assms
  proof (elim disjE)
    assume "S3_upload f b k \<in> set (upload_folder_to_s3 cwd folder bucket s3_client)"
    then have "S3_upload f b k \<in> set (calls (upload_folder_to_s3 cwd folder bucket s3_client))"
      by (rule in_calls) simp
    then show ?thesis
      unfolding calls_seq by auto
  next
    assume "S3_upload f b k \<in> set (parallel_upload_folder_to_s3 cwd folder bucket s3_client)"
    then have "S3_upload f b k \<in> set (calls (parallel_upload_folder_to_s3 cwd folder bucket s3_client))"
      by (rule in_calls) simp
    then show ?thesis
      unfolding calls_parallel by auto
  next
    assume "Pool_submit f b k \<in> set (parallel_upload_folder_to_s3 cwd folder bucket s3_client)"
    then have "Pool_submit f b k \<in> set (calls (parallel_upload_folder_to_s3 cwd folder bucket s3_client))"
      by (rule in_calls) simp
    then show ?thesis
      unfolding calls_parallel by auto
  qed
  then show ?thesis
    using walked_key [of f cwd] calls_seq [of cwd folder bucket s3_client] by blast
qed

theorem upload_key_strips_prefix_witness:
  "S3_upload ''./data/a/b/c.tsv'' ''fundamentals-data'' ''data/a/b/c.tsv''
     \<in> set (upload_folder_to_s3
         (\<lambda>d. if d = ''./data'' then Some (Tree [] [(''a'', Tree [] [(''b'', Tree [''c.tsv''] [])])])
              else None)
         ''./data'' ''fundamentals-data'' (\<lambda>file_name bucket key. True))
   \<and> ''data/a/b/c.tsv'' = drop 2 ''./data/a/b/c.tsv''
   \<and> ''./data/a/b/c.tsv'' = ''./'' @ ''data/a/b/c.tsv''"
proof -
  have h: "S3_upload ''./data/a/b/c.tsv'' ''fundamentals-data'' ''data/a/b/c.tsv''
     \<in> set (upload_folder_to_s3
         (\<lambda>d. if d = ''./data'' then Some (Tree [] [(''a'', Tree [] [(''b'', Tree [''c.tsv''] [])])])
              else None)
         ''./data'' ''fundamentals-data'' (\<lambda>file_name bucket key. True))"
    by (simp add: upload_folder_to_s3_def os_walk_def upload_file_to_s3_def)
  note c = upload_key_strips_prefix [OF disjI1, OF h]
  show ?thesis
    using h c by blast
qed

text \<open>
  C9. In the concurrent variant the calls of a run, in order, are for every file the walk
  finds one upload made by the calling thread followed by one task with the same
  arguments handed to the pool: two invocations of the per-file upload for each file.
\<close>

theorem parallel_upload_invokes_twice:
  "calls (parallel_upload_folder_to_s3 cwd folder bucket s3_client) =
     concat (map (\<lambda>file_path. [S3_upload file_path bucket (drop 2 file_path),
                               Pool_submit file_path bucket (drop 2 file_path)])
       (walked_files cwd))
   \<and> length (calls (parallel_upload_folder_to_s3 cwd folder bucket s3_client)) =
       2 * length (walked_files cwd)"
proof -
  have "length (concat (map (\<lambda>file_path. [S3_upload file_path bucket (drop 2 file_path),
                               Pool_submit file_path bucket (drop 2 file_path)]) fs)) = 2 * length fs"
    for fs :: "string list"
    by (induction fs) simp_all
  then show ?thesis
    by (simp add: calls_parallel)
qed

text \<open>
  C4. The walk does not start at the \<open>folder\<close> argument: called with \<open>./other\<close>, which
  holds \<open>x.tsv\<close>, the sequential uploader uploads \<open>./data/y.tsv\<close> and never
  \<open>x.tsv\<close>. The concurrent uploader makes two upload invocations for the one file
  under \<open>./data\<close>, where the sequential one makes one.
\<close>

theorem upload_walk_ignores_folder:
  "calls (upload_folder_to_s3
      (\<lambda>d. if d = ''./other'' then Some (Tree [''x.tsv''] [])
           else if d = ''./data'' then Some (Tree [''y.tsv''] []) else None)
      ''./other'' ''fundamentals-data'' (\<lambda>file_name bucket key. True))
     = [S3_upload ''./data/y.tsv'' ''fundamentals-data'' ''data/y.tsv'']
   \<and> calls (parallel_upload_folder_to_s3
      (\<lambda>d. if d = ''./other'' then Some (Tree [''x.tsv''] [])
           else if d = ''./data'' then Some (Tree [''y.tsv''] []) else None)
      ''./data'' ''fundamentals-data'' (\<lambda>file_name bucket key. True))
     = [S3_upload ''./data/y.tsv'' ''fundamentals-data'' ''data/y.tsv'',
        Pool_submit ''./data/y.tsv'' ''fundamentals-data'' ''data/y.tsv'']
   \<and> calls (upload_folder_to_s3
      (\<lambda>d. if d = ''./other'' then Some (Tree [''x.tsv''] [])
           else if d = ''./data'' then Some (Tree [''y.tsv''] []) else None)
      ''./data'' ''fundamentals-data'' (\<lambda>file_name bucket key. True))
     = [S3_upload ''./data/y.tsv'' ''fundamentals-data'' ''data/y.tsv'']"
  by (simp add: upload_folder_to_s3_def parallel_upload_folder_to_s3_def os_walk_def
      upload_file_to_s3_def calls_def Let_def)

end
